theory Spec2Isabelle
  imports Main "HOL-Library.Word" "HOL-Library.Char_ord" "HOL-Library.List_Lexorder"
begin

section \<open>Errors\<close>

text \<open>
  The exceptions and failure results of the modelled JavaScript, as values.
  \<^item> \<open>RangeError\<close>: the engine's "Maximum call stack size exceeded".
  \<^item> \<open>SyntaxError\<close>: \<^verbatim>\<open>JSON.parse\<close> on text that is not JSON.
  \<^item> \<open>InvalidCharacterError\<close>: \<^verbatim>\<open>atob\<close> on text that is not base64.
  \<^item> \<open>InvalidTransaction\<close>: the \<^verbatim>\<open>Error\<close> thrown by \<^verbatim>\<open>Block.addTransaction\<close>.
  \<^item> \<open>NoBlobProvided\<close>: \<^verbatim>\<open>save\<close> returning \<^verbatim>\<open>null\<close> because no buffer was given.
\<close>

datatype error = RangeError | SyntaxError | InvalidCharacterError | InvalidTransaction | NoBlobProvided

section \<open>JSON values and \<^verbatim>\<open>JSON.stringify\<close>\<close>

text \<open>
  A JavaScript value that \<^verbatim>\<open>JSON.stringify\<close> can print. An object is the list of its
  own properties in the order the engine enumerates them, which for keys that are not
  array indices is the order of insertion; keys are distinct. Numbers are integers
  (printed in decimal, as JavaScript prints every integer below \<open>10^21\<close>). Strings are
  byte strings holding the UTF-8 form of the JavaScript string.
\<close>

datatype json =
    JNull
  | JBool bool
  | JNum int
  | JStr string
  | JArr "json list"
  | JObj "(string \<times> json) list"

definition digit_char :: "nat \<Rightarrow> char" where
  "digit_char n = ''0123456789abcdef'' ! (n mod 16)"

fun decimal_nat :: "nat \<Rightarrow> string" where
  "decimal_nat n = (if n < 10 then [digit_char n] else decimal_nat (n div 10) @ [digit_char (n mod 10)])"

declare decimal_nat.simps [simp del]

definition decimal :: "int \<Rightarrow> string" where
  "decimal i = (if i < 0 then CHR ''-'' # decimal_nat (nat (- i)) else decimal_nat (nat i))"

text \<open>
  \<^verbatim>\<open>QuoteJSONString\<close> of ECMAScript: the two-character escapes, \<^verbatim>\<open>\u00XX\<close> for the other
  control characters, every other character as it is.
\<close>

definition quote_char :: "char \<Rightarrow> string" where
  "quote_char c =
     (if c = CHR 0x08 then [CHR 0x5C, CHR ''b'']
      else if c = CHR 0x09 then [CHR 0x5C, CHR ''t'']
      else if c = CHR 0x0A then [CHR 0x5C, CHR ''n'']
      else if c = CHR 0x0C then [CHR 0x5C, CHR ''f'']
      else if c = CHR 0x0D then [CHR 0x5C, CHR ''r'']
      else if c = CHR 0x22 then [CHR 0x5C, CHR 0x22]
      else if c = CHR 0x5C then [CHR 0x5C, CHR 0x5C]
      else if (of_char c :: nat) < 32
        then [CHR 0x5C, CHR ''u'', CHR ''0'', CHR ''0'',
              digit_char (of_char c div 16), digit_char (of_char c mod 16)]
      else [c])"

definition quote :: "string \<Rightarrow> string" where
  "quote s = CHR 0x22 # concat (map quote_char s) @ [CHR 0x22]"

fun join_comma :: "string list \<Rightarrow> string" where
  "join_comma [] = []"
| "join_comma [x] = x"
| "join_comma (x # y # ys) = x @ CHR '','' # join_comma (y # ys)"

fun stringify :: "json \<Rightarrow> string" where
  "stringify JNull = ''null''"
| "stringify (JBool b) = (if b then ''true'' else ''false'')"
| "stringify (JNum n) = decimal n"
| "stringify (JStr s) = quote s"
| "stringify (JArr xs) = CHR ''['' # join_comma (map stringify xs) @ '']''"
| "stringify (JObj kvs) =
     CHR ''{'' # join_comma (map (\<lambda>kv. quote (fst kv) @ CHR '':'' # stringify (snd kv)) kvs) @ ''}''"

text \<open>
  The canonical form the hashing strategy document of the repository asks for
  ("JSON.stringify with sorted keys"): the members of every object, at every depth, in
  the lexicographic order of their keys.
\<close>

fun sort_keys :: "json \<Rightarrow> json" where
  "sort_keys (JArr xs) = JArr (map sort_keys xs)"
| "sort_keys (JObj kvs) = JObj (sort_key fst (map (\<lambda>kv. (fst kv, sort_keys (snd kv))) kvs))"
| "sort_keys v = v"

section \<open>\<^verbatim>\<open>SmartContract.calculateHash\<close> (models.js)\<close>

text \<open>
  The fields of a \<^verbatim>\<open>SmartContract\<close> that \<^verbatim>\<open>calculateHash\<close> reads. The constructor copies
  \<^verbatim>\<open>signature\<close>, \<^verbatim>\<open>conditions\<close>, \<^verbatim>\<open>obligations\<close>, \<^verbatim>\<open>penalties\<close>, \<^verbatim>\<open>paymentSchedule\<close>,
  \<^verbatim>\<open>startDate\<close>, \<^verbatim>\<open>endDate\<close> and \<^verbatim>\<open>milestones\<close> from its argument as they are, so they are
  arbitrary JSON values; the objects \<^verbatim>\<open>parties\<close>, \<^verbatim>\<open>party1\<close>, \<^verbatim>\<open>party2\<close>, \<^verbatim>\<open>terms\<close>,
  \<^verbatim>\<open>financial\<close> and \<^verbatim>\<open>timeline\<close> are built by the constructor with their keys in the
  order written there.
\<close>

record party =
  p_name :: string
  p_address :: string
  p_contact :: string
  p_signature :: json

record parties =
  party1 :: party
  party2 :: party

record terms =
  content :: string
  conditions :: json
  obligations :: json
  penalties :: json

record financial =
  fin_value :: int
  currency :: string
  paymentTerms :: string
  paymentSchedule :: json

record timeline =
  startDate :: json
  endDate :: json
  duration :: int
  milestones :: json

record SmartContract =
  title :: string
  sc_parties :: parties
  sc_terms :: terms
  sc_financial :: financial
  sc_timeline :: timeline

definition party_json :: "party \<Rightarrow> json" where
  "party_json p = JObj [(''name'', JStr (p_name p)), (''address'', JStr (p_address p)),
     (''contact'', JStr (p_contact p)), (''signature'', p_signature p)]"

text \<open>The object \<^verbatim>\<open>data\<close> of \<^verbatim>\<open>calculateHash\<close>, which is handed to \<^verbatim>\<open>JSON.stringify\<close>.\<close>

definition SmartContract_hash_data :: "SmartContract \<Rightarrow> json" where
  "SmartContract_hash_data c = JObj
     [(''title'', JStr (title c)),
      (''parties'', JObj [(''party1'', party_json (party1 (sc_parties c))),
                          (''party2'', party_json (party2 (sc_parties c)))]),
      (''terms'', JObj [(''content'', JStr (content (sc_terms c))),
                        (''conditions'', conditions (sc_terms c)),
                        (''obligations'', obligations (sc_terms c)),
                        (''penalties'', penalties (sc_terms c))]),
      (''financial'', JObj [(''value'', JNum (fin_value (sc_financial c))),
                            (''currency'', JStr (currency (sc_financial c))),
                            (''paymentTerms'', JStr (paymentTerms (sc_financial c))),
                            (''paymentSchedule'', paymentSchedule (sc_financial c))]),
      (''timeline'', JObj [(''startDate'', startDate (sc_timeline c)),
                           (''endDate'', endDate (sc_timeline c)),
                           (''duration'', JNum (duration (sc_timeline c))),
                           (''milestones'', milestones (sc_timeline c))])]"

text \<open>
  \<^verbatim>\<open>return CryptoJS.SHA256(JSON.stringify(data)).toString()\<close>. The digest of the
  CryptoJS library, from a text to its hexadecimal form, is the parameter \<open>sha\<close>.
\<close>

definition SmartContract_calculateHash :: "(string \<Rightarrow> string) \<Rightarrow> SmartContract \<Rightarrow> string" where
  "SmartContract_calculateHash sha c = sha (stringify (SmartContract_hash_data c))"

text \<open>
  Two contracts as \<^verbatim>\<open>new SmartContract({title: 'Supply', terms: {conditions: [c]}})\<close>
  builds them, with \<^verbatim>\<open>c = {clause: 'delivery', due: 30}\<close> for the first and
  \<^verbatim>\<open>c = {due: 30, clause: 'delivery'}\<close> for the second.
\<close>

definition blank_party :: party where
  "blank_party = \<lparr>p_name = '''', p_address = '''', p_contact = '''', p_signature = JNull\<rparr>"

definition supply_contract :: "json \<Rightarrow> SmartContract" where
  "supply_contract c =
     \<lparr>title = ''Supply'',
      sc_parties = \<lparr>party1 = blank_party, party2 = blank_party\<rparr>,
      sc_terms = \<lparr>content = '''', conditions = JArr [c], obligations = JArr [], penalties = JArr []\<rparr>,
      sc_financial = \<lparr>fin_value = 0, currency = ''CNY'', paymentTerms = '''', paymentSchedule = JArr []\<rparr>,
      sc_timeline = \<lparr>startDate = JNull, endDate = JNull, duration = 0, milestones = JArr []\<rparr>\<rparr>"

definition clause_first :: json where
  "clause_first = JObj [(''clause'', JStr ''delivery''), (''due'', JNum 30)]"

definition due_first :: json where
  "due_first = JObj [(''due'', JNum 30), (''clause'', JStr ''delivery'')]"

section \<open>\<^verbatim>\<open>BaseModel\<close>, \<^verbatim>\<open>Transaction\<close> and \<^verbatim>\<open>Block\<close> (models.js)\<close>

text \<open>
  The \<^verbatim>\<open>||\<close> of the constructors: an absent or falsy value (the empty string, the
  number 0) gives way to the default.
\<close>

definition or_str :: "string option \<Rightarrow> string \<Rightarrow> string" where
  "or_str v d = (case v of None \<Rightarrow> d | Some s \<Rightarrow> if s = [] then d else s)"

definition or_num :: "nat option \<Rightarrow> nat \<Rightarrow> nat" where
  "or_num v d = (case v of None \<Rightarrow> d | Some n \<Rightarrow> if n = 0 then d else n)"

record tx_metadata =
  gasPrice :: nat
  tx_gasLimit :: nat
  tx_gasUsed :: nat
  blockHash :: json
  blockIndex :: json
  transactionIndex :: json

text \<open>
  A \<^verbatim>\<open>Transaction\<close> instance: the four fields of \<^verbatim>\<open>BaseModel\<close>, then its own. Amounts are
  integers, so that the negative ones \<^verbatim>\<open>validate\<close> rejects exist.
\<close>

record Transaction =
  tx_id :: string
  tx_createdAt :: string
  tx_updatedAt :: string
  tx_version :: nat
  tx_type :: string
  tx_from :: string
  tx_to :: string
  amount :: int
  fee :: int
  tx_data :: json
  tx_signature :: json
  tx_status :: string
  tx_meta :: tx_metadata

datatype validation_error =
    EmptyFrom | EmptyTo | NegativeAmount | NegativeFee
  | InvalidBlockHash
  | InvalidTransactionIn string "validation_error list"

text \<open>
  \<^verbatim>\<open>Transaction.validate\<close>: the pair of \<^verbatim>\<open>valid\<close> and \<^verbatim>\<open>errors\<close>; the messages are
  the constructors of \<open>validation_error\<close>.
\<close>

definition Transaction_validate :: "Transaction \<Rightarrow> bool \<times> validation_error list" where
  "Transaction_validate this =
     (let errors = (if tx_from this = [] then [EmptyFrom] else [])
                 @ (if tx_to this = [] then [EmptyTo] else [])
                 @ (if amount this < 0 then [NegativeAmount] else [])
                 @ (if fee this < 0 then [NegativeFee] else [])
      in (errors = [], errors))"

text \<open>
  \<^verbatim>\<open>BaseModel.toJSON() { return JSON.parse(JSON.stringify(this)); }\<close>, which every model
  class inherits. \<^verbatim>\<open>JSON.stringify\<close> serialises an object that has a callable \<^verbatim>\<open>toJSON\<close>
  property by calling it (ECMAScript, SerializeJSONProperty, step 2) and \<^verbatim>\<open>this\<close> has
  one, this very method: each call makes the next one on the same object, until the
  engine has no call stack left and throws. The number below is the stack depth left.
\<close>

fun toJSON_within :: "nat \<Rightarrow> Transaction \<Rightarrow> error + json" where
  "toJSON_within 0 this = Inl RangeError"
| "toJSON_within (Suc depth) this = toJSON_within depth this"

text \<open>The depth of the call stack is a parameter of the engine; 10000 frames here.\<close>

definition toJSON :: "Transaction \<Rightarrow> error + json" where
  "toJSON this = toJSON_within 10000 this"

record block_metadata =
  md_size :: nat
  transactionCount :: nat
  merkleRoot :: string
  gasUsed :: nat
  gasLimit :: nat

text \<open>
  A \<^verbatim>\<open>Block\<close> instance: the four fields of \<^verbatim>\<open>BaseModel\<close>, then its own. \<^verbatim>\<open>index\<close> and
  \<^verbatim>\<open>nonce\<close> are JavaScript numbers holding naturals, exact up to \<open>2^53\<close>.
\<close>

record Block =
  b_id :: string
  b_createdAt :: string
  b_updatedAt :: string
  b_version :: nat
  index :: nat
  timestamp :: string
  previousHash :: string
  hash :: string
  nonce :: nat
  difficulty :: nat
  transactions :: "Transaction list"
  metadata :: block_metadata

text \<open>\<^verbatim>\<open>xs.map(f)\<close> where \<^verbatim>\<open>f\<close> may throw: the first exception ends the traversal.\<close>

fun map_result :: "('a \<Rightarrow> error + 'b) \<Rightarrow> 'a list \<Rightarrow> error + 'b list" where
  "map_result f [] = Inr []"
| "map_result f (x # xs) =
     (case f x of
        Inl e \<Rightarrow> Inl e
      | Inr y \<Rightarrow> (case map_result f xs of Inl e \<Rightarrow> Inl e | Inr ys \<Rightarrow> Inr (y # ys)))"

text \<open>
  \<^verbatim>\<open>Block.calculateHash\<close>: the object \<^verbatim>\<open>data\<close> with the keys \<^verbatim>\<open>index\<close>, \<^verbatim>\<open>timestamp\<close>,
  \<^verbatim>\<open>previousHash\<close>, \<^verbatim>\<open>transactions\<close> (each transaction through \<^verbatim>\<open>toJSON\<close>) and \<^verbatim>\<open>nonce\<close>,
  then \<^verbatim>\<open>CryptoJS.SHA256(JSON.stringify(data)).toString()\<close>.
\<close>

definition Block_hash_data :: "Block \<Rightarrow> json list \<Rightarrow> json" where
  "Block_hash_data this txs = JObj
     [(''index'', JNum (int (index this))),
      (''timestamp'', JStr (timestamp this)),
      (''previousHash'', JStr (previousHash this)),
      (''transactions'', JArr txs),
      (''nonce'', JNum (int (nonce this)))]"

definition Block_calculateHash :: "(string \<Rightarrow> string) \<Rightarrow> Block \<Rightarrow> error + string" where
  "Block_calculateHash sha this =
     (case map_result toJSON (transactions this) of
        Inl e \<Rightarrow> Inl e
      | Inr txs \<Rightarrow> Inr (sha (stringify (Block_hash_data this txs))))"

text \<open>
  The argument \<^verbatim>\<open>data\<close> of the \<^verbatim>\<open>Block\<close> constructor: every property may be absent.
  Plain objects in \<^verbatim>\<open>data.transactions\<close> are turned into \<^verbatim>\<open>Transaction\<close>s by that class's
  constructor; the list here holds the resulting instances.
\<close>

record block_data =
  d_id :: "string option"
  d_createdAt :: "string option"
  d_updatedAt :: "string option"
  d_version :: "nat option"
  d_index :: "nat option"
  d_timestamp :: "string option"
  d_previousHash :: "string option"
  d_hash :: "string option"
  d_nonce :: "nat option"
  d_difficulty :: "nat option"
  d_transactions :: "Transaction list option"
  d_metadata :: "block_metadata option"

text \<open>
  What the surroundings return where a constructor asks for them: \<^verbatim>\<open>generateId()\<close> and
  the three \<^verbatim>\<open>new Date().toISOString()\<close>.
\<close>

record clock =
  generated_id :: string
  created_now :: string
  updated_now :: string
  timestamp_now :: string

definition Block_fields :: "clock \<Rightarrow> block_data \<Rightarrow> Block" where
  "Block_fields clk data =
     \<lparr>b_id = or_str (d_id data) (generated_id clk),
      b_createdAt = or_str (d_createdAt data) (created_now clk),
      b_updatedAt = or_str (d_updatedAt data) (updated_now clk),
      b_version = or_num (d_version data) 1,
      index = or_num (d_index data) 0,
      timestamp = or_str (d_timestamp data) (timestamp_now clk),
      previousHash = or_str (d_previousHash data) ''0'',
      hash = or_str (d_hash data) '''',
      nonce = or_num (d_nonce data) 0,
      difficulty = or_num (d_difficulty data) 4,
      transactions = (case d_transactions data of None \<Rightarrow> [] | Some txs \<Rightarrow> txs),
      metadata =
        \<lparr>md_size = or_num (map_option md_size (d_metadata data)) 0,
         transactionCount = or_num (map_option transactionCount (d_metadata data)) 0,
         merkleRoot = or_str (map_option merkleRoot (d_metadata data)) '''',
         gasUsed = or_num (map_option gasUsed (d_metadata data)) 0,
         gasLimit = or_num (map_option gasLimit (d_metadata data)) 1000000\<rparr>\<rparr>"

text \<open>
  The \<^verbatim>\<open>Block\<close> constructor: the fields, then
  \<^verbatim>\<open>if (!this.hash) this.hash = this.calculateHash()\<close>.
\<close>

definition Block_new :: "(string \<Rightarrow> string) \<Rightarrow> clock \<Rightarrow> block_data \<Rightarrow> error + Block" where
  "Block_new sha clk data =
     (let this = Block_fields clk data in
      if hash this = []
      then (case Block_calculateHash sha this of
              Inl e \<Rightarrow> Inl e
            | Inr h \<Rightarrow> Inr (this\<lparr>hash := h\<rparr>))
      else Inr this)"

text \<open>
  \<^verbatim>\<open>Block.mineBlock(difficulty)\<close>. \<^verbatim>\<open>Array(difficulty + 1).join('0')\<close> is \<open>difficulty\<close>
  zero characters and \<^verbatim>\<open>substring(0, difficulty)\<close> the first \<open>difficulty\<close> characters
  of the hash, or all of it when it is shorter. The loop has no other exit than a
  matching hash or an exception of \<^verbatim>\<open>calculateHash\<close>; the result is \<open>None\<close> when it
  runs forever, and otherwise how the call ended together with the block as the call
  left it (an exception leaves the incremented nonce behind). The nonce counts in the
  naturals; the JavaScript number counts exactly up to \<open>2^53\<close>, beyond any run.
\<close>

partial_function (option) mineBlock ::
  "(string \<Rightarrow> string) \<Rightarrow> nat \<Rightarrow> Block \<Rightarrow> ((error + unit) \<times> Block) option" where
  "mineBlock sha d this =
     (if take d (hash this) \<noteq> replicate d CHR ''0''
      then (let this1 = this\<lparr>nonce := nonce this + 1\<rparr> in
            case Block_calculateHash sha this1 of
              Inl e \<Rightarrow> Some (Inl e, this1)
            | Inr h \<Rightarrow> mineBlock sha d (this1\<lparr>hash := h\<rparr>))
      else Some (Inr (), this\<lparr>difficulty := d\<rparr>))"

declare mineBlock.simps [code]

text \<open>\<^verbatim>\<open>BaseModel.touch\<close>, with the time the clock shows.\<close>

definition touch :: "string \<Rightarrow> Block \<Rightarrow> Block" where
  "touch now this = this\<lparr>b_updatedAt := now, b_version := b_version this + 1\<rparr>"

text \<open>
  \<^verbatim>\<open>Block.addTransaction\<close>, for an argument that is a \<^verbatim>\<open>Transaction\<close> (a plain object is
  first turned into one by that class's constructor): an invalid transaction is refused
  with an exception, a valid one is pushed, counted and the block touched. The hash is
  not assigned.
\<close>

definition addTransaction :: "string \<Rightarrow> Transaction \<Rightarrow> Block \<Rightarrow> (error + unit) \<times> Block" where
  "addTransaction now transaction this =
     (if \<not> fst (Transaction_validate transaction) then (Inl InvalidTransaction, this)
      else (Inr (),
            touch now (this\<lparr>transactions := transactions this @ [transaction],
                            metadata := (metadata this)\<lparr>transactionCount := length (transactions this) + 1\<rparr>\<rparr>)))"

text \<open>\<^verbatim>\<open>Block.validate\<close>: the pair of \<^verbatim>\<open>valid\<close> and \<^verbatim>\<open>errors\<close>.\<close>

definition Block_validate :: "(string \<Rightarrow> string) \<Rightarrow> Block \<Rightarrow> error + bool \<times> validation_error list" where
  "Block_validate sha this =
     (case Block_calculateHash sha this of
        Inl e \<Rightarrow> Inl e
      | Inr h \<Rightarrow>
          (let errors = (if hash this \<noteq> h then [InvalidBlockHash] else [])
                      @ concat (map (\<lambda>tx. if fst (Transaction_validate tx) then []
                                           else [InvalidTransactionIn (tx_id tx) (snd (Transaction_validate tx))])
                                    (transactions this))
           in Inr (errors = [], errors)))"

section \<open>Chain validation\<close>

text \<open>
  Modelled from the spec: the class \<^verbatim>\<open>Blockchain\<close> with \<^verbatim>\<open>isChainValid\<close> is not among the
  sources (only its tests are). The specification, section 4.3: "recomputes each block's
  hash from its immutable fields and compares to the stored hash; separately checks that
  each block's previousHash equals the prior block's stored hash. Either mismatch
  invalidates the chain at that block", with the result \<open>(bool, optional
  firstInvalidIndex)\<close>. The recomputation is \<^verbatim>\<open>Block.calculateHash\<close> of the sources; an
  exception of it ends the validation.
\<close>

fun check_blocks :: "(string \<Rightarrow> string) \<Rightarrow> nat \<Rightarrow> Block option \<Rightarrow> Block list \<Rightarrow> error + bool \<times> nat option" where
  "check_blocks sha i prior [] = Inr (True, None)"
| "check_blocks sha i prior (b # bs) =
     (case Block_calculateHash sha b of
        Inl e \<Rightarrow> Inl e
      | Inr h \<Rightarrow>
          if hash b \<noteq> h then Inr (False, Some i)
          else if (case prior of None \<Rightarrow> False | Some p \<Rightarrow> previousHash b \<noteq> hash p)
            then Inr (False, Some i)
          else check_blocks sha (Suc i) (Some b) bs)"

text \<open>
  Modelled from the spec: \<^verbatim>\<open>isChainValid() -> (bool, optional firstInvalidIndex)\<close>, the
  check of every block of the chain from the genesis block on, which has no prior block.
\<close>

definition isChainValid :: "(string \<Rightarrow> string) \<Rightarrow> Block list \<Rightarrow> error + bool \<times> nat option" where
  "isChainValid sha chain = check_blocks sha 0 None chain"

text \<open>
  Two blocks that agree on the fields validation reads: the five fields of the digest
  and the stored hash.
\<close>

definition same_digest_fields :: "Block \<Rightarrow> Block \<Rightarrow> bool" where
  "same_digest_fields b b' =
     (index b' = index b \<and> timestamp b' = timestamp b \<and> previousHash b' = previousHash b
      \<and> hash b' = hash b \<and> nonce b' = nonce b \<and> transactions b' = transactions b)"

section \<open>Base64: \<^verbatim>\<open>btoa\<close> and \<^verbatim>\<open>atob\<close>\<close>

text \<open>
  The two functions of the browser, as the HTML standard defines them. A binary string is
  a \<open>string\<close> whose characters are the bytes. \<^verbatim>\<open>btoa\<close> cuts the bytes into groups of six
  bits, the last group filled with zero bits, writes each group as a character of the
  alphabet and pads with \<^verbatim>\<open>=\<close> to a multiple of four characters.
\<close>

definition b64_alphabet :: string where
  "b64_alphabet = ''ABCDEFGHIJKLMNOPQRSTUVWXYZabcdefghijklmnopqrstuvwxyz0123456789+/''"

definition b64_char :: "nat \<Rightarrow> char" where
  "b64_char n = b64_alphabet ! n"

fun sextets :: "string \<Rightarrow> nat list" where
  "sextets (a # b # c # rest) =
     [of_char a div 4, (of_char a mod 4) * 16 + of_char b div 16,
      (of_char b mod 16) * 4 + of_char c div 64, of_char c mod 64] @ sextets rest"
| "sextets [a, b] = [of_char a div 4, (of_char a mod 4) * 16 + of_char b div 16, (of_char b mod 16) * 4]"
| "sextets [a] = [of_char a div 4, (of_char a mod 4) * 16]"
| "sextets [] = []"

definition btoa :: "string \<Rightarrow> string" where
  "btoa s = map b64_char (sextets s) @ replicate ((3 - length s mod 3) mod 3) CHR ''=''"






section \<open>The record history (history-storage.js)\<close>

type_synonym byte = "8 word"

text \<open>
  An entry of the history as \<^verbatim>\<open>save\<close> builds it. \<^verbatim>\<open>chain\<close> is the object
  \<^verbatim>\<open>{status: 'not_submitted'}\<close>, kept as its status; \<^verbatim>\<open>pdfBase64\<close> is \<^verbatim>\<open>null\<close> or a text.
\<close>

record history_record =
  rec_id :: string
  template :: string
  fileName :: string
  createdAt :: nat
  byte_size :: nat
  sha256 :: string
  rec_fields :: "(string \<times> string) list"
  chain_status :: string
  pdfBase64 :: "string option"

text \<open>The argument \<^verbatim>\<open>meta\<close> of \<^verbatim>\<open>save\<close>, an object: every property may be absent.\<close>

record meta =
  m_template :: "string option"
  m_templateKey :: "string option"
  m_fileName :: "string option"
  m_fields :: "(string \<times> string) list option"

text \<open>
  \<^verbatim>\<open>localStorage\<close> holds texts. An item is absent (\<open>None\<close>; an item holding the empty
  text reads the same way, because of the \<^verbatim>\<open>||\<close> after each \<^verbatim>\<open>getItem\<close>), or it holds a
  text that \<^verbatim>\<open>JSON.parse\<close> rejects (\<open>Malformed\<close>), or the text \<^verbatim>\<open>JSON.stringify\<close> made of a
  value (\<open>Json\<close>), which \<^verbatim>\<open>JSON.parse\<close> gives back. The item \<^verbatim>\<open>contractRecord:index\<close> is
  one component, the items \<^verbatim>\<open>contractRecord:<id>\<close> the other, as a function of the id
  (no id that \<^verbatim>\<open>save\<close> makes is the word \<^verbatim>\<open>index\<close>). The value of the index item is an
  array of ids and the value of a record item is a record: these are the values the
  module writes. \<^verbatim>\<open>setItem\<close> is taken to succeed: the quota of the browser is outside
  the model.
\<close>

datatype 'a slot = Malformed | Json 'a

record localStorage =
  index_item :: "string list slot option"
  record_item :: "string \<Rightarrow> history_record slot option"

text \<open>\<^verbatim>\<open>readIndex\<close>: a text that does not parse reads as the empty index.\<close>

definition readIndex :: "localStorage \<Rightarrow> string list" where
  "readIndex ls = (case index_item ls of None \<Rightarrow> [] | Some Malformed \<Rightarrow> [] | Some (Json arr) \<Rightarrow> arr)"

definition writeIndex :: "string list \<Rightarrow> localStorage \<Rightarrow> localStorage" where
  "writeIndex arr ls = ls\<lparr>index_item := Some (Json arr)\<rparr>"

text \<open>
  The expression \<^verbatim>\<open>JSON.parse(localStorage.getItem('contractRecord:'+id) || 'null')\<close> of
  \<^verbatim>\<open>save\<close> and \<^verbatim>\<open>loadAll\<close>, which no \<^verbatim>\<open>try\<close> surrounds: \<^verbatim>\<open>null\<close> for an absent item, an
  exception for a malformed one.
\<close>

definition parse_item :: "localStorage \<Rightarrow> string \<Rightarrow> error + history_record option" where
  "parse_item ls rid =
     (case record_item ls rid of
        None \<Rightarrow> Inr None
      | Some Malformed \<Rightarrow> Inl SyntaxError
      | Some (Json r) \<Rightarrow> Inr (Some r))"

text \<open>
  What \<^verbatim>\<open>save\<close> is given as its buffer: \<^verbatim>\<open>sha256Hex\<close> allows an \<^verbatim>\<open>ArrayBuffer\<close> or a
  \<^verbatim>\<open>Uint8Array\<close>. An \<^verbatim>\<open>ArrayBuffer\<close> is its bytes. A \<^verbatim>\<open>Uint8Array\<close> is a view: the bytes
  of the \<^verbatim>\<open>ArrayBuffer\<close> behind it (its property \<^verbatim>\<open>buffer\<close>), the position in that buffer
  where the view starts (\<^verbatim>\<open>byteOffset\<close>) and the number of bytes it shows (\<^verbatim>\<open>length\<close>, which
  is its \<^verbatim>\<open>byteLength\<close> too). The engine makes no view that reaches beyond its buffer:
  offset and length together are at most the length of the buffer.
\<close>

datatype buffer = ArrayBuffer "byte list" | Uint8Array "byte list" nat nat

text \<open>\<^verbatim>\<open>arrayBuffer.byteLength\<close>.\<close>

fun byteLength :: "buffer \<Rightarrow> nat" where
  "byteLength (ArrayBuffer bytes) = length bytes"
| "byteLength (Uint8Array backing byteOffset n) = n"

text \<open>
  The elements of \<^verbatim>\<open>new Uint8Array(arrayBuffer)\<close>: all bytes of an \<^verbatim>\<open>ArrayBuffer\<close>, and of
  a view the bytes it shows.
\<close>

fun shown_bytes :: "buffer \<Rightarrow> byte list" where
  "shown_bytes (ArrayBuffer bytes) = bytes"
| "shown_bytes (Uint8Array backing byteOffset n) = take n (drop byteOffset backing)"

text \<open>
  \<^verbatim>\<open>sha256Hex(buffer)\<close>: the digest of \<^verbatim>\<open>buffer\<close> when it is an \<^verbatim>\<open>ArrayBuffer\<close>, and of
  \<^verbatim>\<open>buffer.buffer\<close> otherwise, which for a view is the whole buffer behind it, whatever
  the view shows of it. \<open>digest\<close> is \<^verbatim>\<open>crypto.subtle.digest('SHA-256', ab)\<close> written in
  hexadecimal.
\<close>

definition sha256Hex :: "(byte list \<Rightarrow> string) \<Rightarrow> buffer \<Rightarrow> string" where
  "sha256Hex digest buffer =
     digest (case buffer of ArrayBuffer bytes \<Rightarrow> bytes | Uint8Array backing byteOffset n \<Rightarrow> backing)"

text \<open>
  The loop of \<^verbatim>\<open>save\<close> that builds the binary string, \<^verbatim>\<open>0x8000\<close> bytes at a time with
  \<^verbatim>\<open>String.fromCharCode\<close>, from the position \<open>i\<close> on.
\<close>

function binary_from :: "nat \<Rightarrow> byte list \<Rightarrow> string" where
  "binary_from i bytes =
     (if i < length bytes
      then map (\<lambda>b. char_of (unat b)) (take 32768 (drop i bytes)) @ binary_from (i + 32768) bytes
      else [])"
  by pat_completeness auto
termination
  by (relation "measure (\<lambda>(i, bytes). length bytes - i)") auto

declare binary_from.simps [simp del]

text \<open>
  The loop of \<^verbatim>\<open>save\<close> over the index that looks for a record with the same digest: the
  \<^verbatim>\<open>id\<close> property of the first one found, \<open>None\<close> when the loop ends without one.
\<close>

fun find_same_hash :: "localStorage \<Rightarrow> string \<Rightarrow> string list \<Rightarrow> error + string option" where
  "find_same_hash ls h [] = Inr None"
| "find_same_hash ls h (rid # rest) =
     (case parse_item ls rid of
        Inl e \<Rightarrow> Inl e
      | Inr None \<Rightarrow> find_same_hash ls h rest
      | Inr (Some existing) \<Rightarrow>
          if sha256 existing = h then Inr (Some (rec_id existing)) else find_same_hash ls h rest)"

text \<open>
  What the surroundings return to one call of \<^verbatim>\<open>save\<close>: \<^verbatim>\<open>Date.now()\<close> for the id, the
  four characters kept of \<^verbatim>\<open>Math.random().toString(36)\<close>, and \<^verbatim>\<open>Date.now()\<close> for
  \<^verbatim>\<open>createdAt\<close>.
\<close>

record moment =
  now_id :: nat
  random_tail :: string
  now_created :: nat

definition storePdfBase64 :: bool where
  "storePdfBase64 = True"

definition new_id :: "moment \<Rightarrow> string" where
  "new_id env = ''CR_'' @ decimal_nat (now_id env) @ ''_'' @ random_tail env"

definition new_record :: "(byte list \<Rightarrow> string) \<Rightarrow> moment \<Rightarrow> meta \<Rightarrow> buffer \<Rightarrow> history_record" where
  "new_record digest env m arrayBuffer =
     \<lparr>rec_id = new_id env,
      template = or_str (m_template m) (or_str (m_templateKey m) ''unknown''),
      fileName = or_str (m_fileName m) (new_id env @ ''.pdf''),
      createdAt = now_created env,
      byte_size = byteLength arrayBuffer,
      sha256 = sha256Hex digest arrayBuffer,
      rec_fields = (case m_fields m of None \<Rightarrow> [] | Some fs \<Rightarrow> fs),
      chain_status = ''not_submitted'',
      pdfBase64 = (if storePdfBase64 then Some (btoa (binary_from 0 (shown_bytes arrayBuffer))) else None)\<rparr>"

text \<open>
  \<^verbatim>\<open>save(meta, arrayBuffer)\<close>, one call from start to end. The buffer is absent (\<open>None\<close>,
  for \<^verbatim>\<open>null\<close> and \<^verbatim>\<open>undefined\<close>) or is an \<^verbatim>\<open>ArrayBuffer\<close> or a \<^verbatim>\<open>Uint8Array\<close>, possibly
  without bytes. \<open>digest\<close> is the digest of the browser. The result is the returned id; the
  returned \<^verbatim>\<open>null\<close> is \<open>Inl NoBlobProvided\<close>.
\<close>

definition save ::
  "(byte list \<Rightarrow> string) \<Rightarrow> moment \<Rightarrow> meta \<Rightarrow> buffer option \<Rightarrow> localStorage
     \<Rightarrow> (error + string) \<times> localStorage" where
  "save digest env m blob ls =
     (case blob of
        None \<Rightarrow> (Inl NoBlobProvided, ls)
      | Some arrayBuffer \<Rightarrow>
          (let record = new_record digest env m arrayBuffer;
               index = readIndex ls
           in case find_same_hash ls (sha256 record) index of
                Inl e \<Rightarrow> (Inl e, ls)
              | Inr (Some existing_id) \<Rightarrow> (Inr existing_id, ls)
              | Inr None \<Rightarrow>
                  (let ls1 = ls\<lparr>record_item := (record_item ls)(rec_id record \<mapsto> Json record)\<rparr>;
                       index1 = rec_id record # index;
                       index2 = (if length index1 > 500 then take 500 index1 else index1)
                   in (Inr (rec_id record), writeIndex index2 ls1))))"

text \<open>\<^verbatim>\<open>loadAll\<close>: the \<^verbatim>\<open>forEach\<close> over the ids, then the function.\<close>

fun load_each :: "localStorage \<Rightarrow> string list \<Rightarrow> error + history_record list" where
  "load_each ls [] = Inr []"
| "load_each ls (rid # ids) =
     (case parse_item ls rid of
        Inl e \<Rightarrow> Inl e
      | Inr obj \<Rightarrow>
          (case load_each ls ids of
             Inl e \<Rightarrow> Inl e
           | Inr arr \<Rightarrow> Inr (case obj of None \<Rightarrow> arr | Some r \<Rightarrow> r # arr)))"

definition loadAll :: "localStorage \<Rightarrow> error + history_record list" where
  "loadAll ls = load_each ls (readIndex ls)"

definition deleteRecord :: "string \<Rightarrow> localStorage \<Rightarrow> localStorage" where
  "deleteRecord rid ls =
     (let ls1 = ls\<lparr>record_item := (record_item ls)(rid := None)\<rparr>
      in writeIndex (filter (\<lambda>x. x \<noteq> rid) (readIndex ls1)) ls1)"

definition clearAll :: "localStorage \<Rightarrow> localStorage" where
  "clearAll ls =
     \<lparr>index_item = None,
      record_item = (\<lambda>rid. if rid \<in> set (readIndex ls) then None else record_item ls rid)\<rparr>"


section \<open>Inputs for evaluation\<close>

text \<open>
  Stand-ins for the two digests where a statement is evaluated on a concrete input: the
  text itself for the digest of CryptoJS, the bytes as a text for the digest of the
  browser. Both are injective, the property of SHA-256 that the code relies on.
\<close>

definition example_sha :: "string \<Rightarrow> string" where
  "example_sha text = text"

definition example_digest :: "byte list \<Rightarrow> string" where
  "example_digest bytes = map (\<lambda>b. char_of (unat b)) bytes"

definition empty_storage :: localStorage where
  "empty_storage = \<lparr>index_item = None, record_item = (\<lambda>rid. None)\<rparr>"

definition first_moment :: moment where
  "first_moment = \<lparr>now_id = 17, random_tail = ''k3x9'', now_created = 18\<rparr>"

definition second_moment :: moment where
  "second_moment = \<lparr>now_id = 42, random_tail = ''p0aa'', now_created = 42\<rparr>"

definition lease_meta :: meta where
  "lease_meta = \<lparr>m_template = None, m_templateKey = Some ''lease'', m_fileName = None, m_fields = None\<rparr>"

definition loan_meta :: meta where
  "loan_meta = \<lparr>m_template = Some ''loan'', m_templateKey = None, m_fileName = Some ''loan.pdf'',
     m_fields = Some [(''amount'', ''900'')]\<rparr>"

definition pdf_bytes :: "byte list" where
  "pdf_bytes = [37, 80, 68, 70, 255]"

text \<open>
  Two views that show these five bytes: \<^verbatim>\<open>new Uint8Array([37, 80, 68, 70, 255])\<close>, over a
  buffer of the five, and \<^verbatim>\<open>new Uint8Array([0, 37, 80, 68, 70, 255]).subarray(1)\<close>, over a
  buffer of six. And two views of the buffer of five that show different bytes, its
  first two (\<^verbatim>\<open>subarray(0, 2)\<close>) and its last three (\<^verbatim>\<open>subarray(2)\<close>).
\<close>

definition whole_view :: buffer where
  "whole_view = Uint8Array pdf_bytes 0 5"

definition part_view :: buffer where
  "part_view = Uint8Array (0 # pdf_bytes) 1 5"

definition head_view :: buffer where
  "head_view = Uint8Array pdf_bytes 0 2"

definition tail_view :: buffer where
  "tail_view = Uint8Array pdf_bytes 2 3"

text \<open>
  A third stand-in, for runs of \<^verbatim>\<open>mineBlock\<close> that end: sixty-four zeros for a text of
  even length, sixty-four \<^verbatim>\<open>f\<close> otherwise.
\<close>

definition parity_sha :: "string \<Rightarrow> string" where
  "parity_sha text = replicate 64 (if even (length text) then CHR ''0'' else CHR ''f'')"

definition no_data :: block_data where
  "no_data = \<lparr>d_id = None, d_createdAt = None, d_updatedAt = None, d_version = None,
     d_index = None, d_timestamp = None, d_previousHash = None, d_hash = None, d_nonce = None,
     d_difficulty = None, d_transactions = None, d_metadata = None\<rparr>"

definition genesis_clock :: clock where
  "genesis_clock = \<lparr>generated_id = ''lq1a0'', created_now = ''2024-01-01T00:00:00.000Z'',
     updated_now = ''2024-01-01T00:00:00.000Z'', timestamp_now = ''2024-01-01T00:00:00.000Z''\<rparr>"

definition second_clock :: clock where
  "second_clock = \<lparr>generated_id = ''lq1b7'', created_now = ''2024-01-01T00:00:10.000Z'',
     updated_now = ''2024-01-01T00:00:10.000Z'', timestamp_now = ''2024-01-01T00:00:10.000Z''\<rparr>"

text \<open>
  The block \<^verbatim>\<open>new Block()\<close> makes at the first clock, and the one
  \<^verbatim>\<open>new Block({index: 1, previousHash: genesis.hash})\<close> makes at the second, both with the
  text as its own digest.
\<close>

definition genesis_block :: Block where
  "genesis_block =
     (Block_fields genesis_clock no_data)
       \<lparr>hash := example_sha (stringify (Block_hash_data (Block_fields genesis_clock no_data) []))\<rparr>"

definition second_data :: block_data where
  "second_data = no_data\<lparr>d_index := Some 1, d_previousHash := Some (hash genesis_block)\<rparr>"

definition second_block :: Block where
  "second_block =
     (Block_fields second_clock second_data)
       \<lparr>hash := example_sha (stringify (Block_hash_data (Block_fields second_clock second_data) []))\<rparr>"

definition payment :: Transaction where
  "payment =
     \<lparr>tx_id = ''lq1c3'', tx_createdAt = ''2024-01-01T00:00:05.000Z'',
      tx_updatedAt = ''2024-01-01T00:00:05.000Z'', tx_version = 1, tx_type = ''transfer'',
      tx_from = ''0xa1'', tx_to = ''0xb2'', amount = 5, fee = 0, tx_data = JObj [],
      tx_signature = JNull, tx_status = ''pending'',
      tx_meta = \<lparr>gasPrice = 0, tx_gasLimit = 21000, tx_gasUsed = 0, blockHash = JNull,
                  blockIndex = JNull, transactionIndex = JNull\<rparr>\<rparr>"

text \<open>
  The block \<^verbatim>\<open>new Block({index: 1, nonce: 8})\<close> makes at the second clock under the
  third stand-in, for a run of \<^verbatim>\<open>mineBlock\<close>, and the block that run leaves.
\<close>

definition mining_data :: block_data where
  "mining_data = no_data\<lparr>d_index := Some 1, d_nonce := Some 8\<rparr>"

definition mining_block :: Block where
  "mining_block =
     (Block_fields second_clock mining_data)
       \<lparr>hash := parity_sha (stringify (Block_hash_data (Block_fields second_clock mining_data) []))\<rparr>"

definition mined_block :: Block where
  "mined_block = mining_block\<lparr>nonce := 10, hash := replicate 64 CHR ''0'', difficulty := 4\<rparr>"

text \<open>
  A store whose index is full: five hundred ids, the newest first and \<^verbatim>\<open>CR_0_0000\<close> the
  oldest, each with its record.
\<close>

definition old_id :: "nat \<Rightarrow> string" where
  "old_id n = ''CR_'' @ decimal_nat n @ ''_0000''"

definition old_record :: "string \<Rightarrow> history_record" where
  "old_record rid =
     \<lparr>rec_id = rid, template = ''lease'', fileName = rid @ ''.pdf'', createdAt = 1, byte_size = 0,
      sha256 = ''sha of '' @ rid, rec_fields = [], chain_status = ''not_submitted'',
      pdfBase64 = None\<rparr>"

definition full_storage :: localStorage where
  "full_storage =
     \<lparr>index_item = Some (Json (map old_id (rev [0..<500]))),
      record_item = (\<lambda>rid. if rid \<in> set (map old_id [0..<500]) then Some (Json (old_record rid)) else None)\<rparr>"

text \<open>
  A store with two ids in its index: the record of the first is as \<^verbatim>\<open>save\<close> wrote it,
  the item of the second holds a text that is not JSON.
\<close>

definition damaged_storage :: localStorage where
  "damaged_storage =
     \<lparr>index_item = Some (Json [''CR_42_p0aa'', ''CR_17_k3x9'']),
      record_item = (\<lambda>rid. if rid = ''CR_42_p0aa''
                              then Some (Json (new_record example_digest second_moment loan_meta (ArrayBuffer pdf_bytes)))
                            else if rid = ''CR_17_k3x9'' then Some Malformed
                            else None)\<rparr>"

section \<open>The hash of a contract and the order of keys\<close>

text \<open>
  Claim C5. The digest of a structured payload does not depend on the order in which
  the keys of its objects were inserted, because the keys are sorted before the payload
  is serialised. \<^verbatim>\<open>SmartContract.calculateHash\<close> hands its payload to \<^verbatim>\<open>JSON.stringify\<close>
  as it is: the two supply contracts, whose only condition has the same two members in
  the two orders, have the same payload once the keys are sorted, but their payloads are
  serialised to two different texts, and a digest that tells texts apart tells the two
  contracts apart.
\<close>

theorem SmartContract_calculateHash_key_order:
  "sort_keys (SmartContract_hash_data (supply_contract clause_first))
     = sort_keys (SmartContract_hash_data (supply_contract due_first))
   \<and> stringify (SmartContract_hash_data (supply_contract clause_first))
     \<noteq> stringify (SmartContract_hash_data (supply_contract due_first))
   \<and> SmartContract_calculateHash example_sha (supply_contract clause_first)
     \<noteq> SmartContract_calculateHash example_sha (supply_contract due_first)"
proof -
  have sorted: "sort_keys (SmartContract_hash_data (supply_contract clause_first))
     = sort_keys (SmartContract_hash_data (supply_contract due_first))"
    by code_simp
  have texts: "stringify (SmartContract_hash_data (supply_contract clause_first))
     \<noteq> stringify (SmartContract_hash_data (supply_contract due_first))"
    by code_simp
  from sorted texts show ?thesis
    by (simp add: SmartContract_calculateHash_def example_sha_def)
qed

text \<open>
  The same two contracts under any digest without collisions.
\<close>

lemma SmartContract_calculateHash_injective_sha:
  assumes "inj sha"
  shows "SmartContract_calculateHash sha (supply_contract clause_first)
     \<noteq> SmartContract_calculateHash sha (supply_contract due_first)"
proof -
  have "stringify (SmartContract_hash_data (supply_contract clause_first))
     \<noteq> stringify (SmartContract_hash_data (supply_contract due_first))"
    by code_simp
  with assms show ?thesis
    by (auto simp add: SmartContract_calculateHash_def dest: injD)
qed

section \<open>Blocks: the hash and the mining loop\<close>

text \<open>
  \<^verbatim>\<open>toJSON\<close> ends in the exception whatever the depth of the stack, so
  \<^verbatim>\<open>Block.calculateHash\<close> returns a digest exactly for a block without transactions.
\<close>

lemma toJSON_within_RangeError: "toJSON_within depth this = Inl RangeError"
  by (induction depth) simp_all

lemma toJSON_RangeError: "toJSON this = Inl RangeError"
  by (simp add: toJSON_def toJSON_within_RangeError)

lemma Block_calculateHash_no_transactions:
  "transactions this = [] \<Longrightarrow>
   Block_calculateHash sha this = Inr (sha (stringify (Block_hash_data this [])))"
  by (simp add: Block_calculateHash_def)

lemma Block_calculateHash_transactions:
  "transactions this \<noteq> [] \<Longrightarrow> Block_calculateHash sha this = Inl RangeError"
  by (cases "transactions this") (simp_all add: Block_calculateHash_def toJSON_RangeError)

text \<open>
  The hash does not read the fields \<^verbatim>\<open>hash\<close> and \<^verbatim>\<open>difficulty\<close>.
\<close>

lemma Block_hash_data_other_fields:
  "Block_hash_data (this\<lparr>hash := h\<rparr>) txs = Block_hash_data this txs"
  "Block_hash_data (this\<lparr>difficulty := d\<rparr>) txs = Block_hash_data this txs"
  by (simp_all add: Block_hash_data_def)

lemma Block_calculateHash_hash:
  "Block_calculateHash sha (this\<lparr>hash := h\<rparr>) = Block_calculateHash sha this"
  by (simp add: Block_calculateHash_def Block_hash_data_other_fields cong: sum.case_cong)

lemma Block_calculateHash_difficulty:
  "Block_calculateHash sha (this\<lparr>difficulty := d\<rparr>) = Block_calculateHash sha this"
  by (simp add: Block_calculateHash_def Block_hash_data_other_fields cong: sum.case_cong)

lemma Block_validate_valid:
  "Block_validate sha this = Inr (True, errors) \<Longrightarrow> Block_calculateHash sha this = Inr (hash this)"
  by (auto simp add: Block_validate_def Let_def split: sum.splits if_splits)

text \<open>
  One turn of the loop of \<^verbatim>\<open>mineBlock\<close>: it is over, or \<^verbatim>\<open>calculateHash\<close> threw, or
  the loop goes on with the next nonce and its hash.
\<close>

lemma mineBlock_step:
  assumes "(if take d (hash this) \<noteq> replicate d CHR ''0''
            then (let this1 = this\<lparr>nonce := nonce this + 1\<rparr> in
                  case Block_calculateHash sha this1 of
                    Inl e \<Rightarrow> Some (Inl e, this1)
                  | Inr h \<Rightarrow> f sha d (this1\<lparr>hash := h\<rparr>))
            else Some (Inr (), this\<lparr>difficulty := d\<rparr>)) = Some y"
  obtains (finished) "take d (hash this) = replicate d CHR ''0''" "y = (Inr (), this\<lparr>difficulty := d\<rparr>)"
    | (threw) e where "take d (hash this) \<noteq> replicate d CHR ''0''"
        "Block_calculateHash sha (this\<lparr>nonce := nonce this + 1\<rparr>) = Inl e"
        "y = (Inl e, this\<lparr>nonce := nonce this + 1\<rparr>)"
    | (again) h where "take d (hash this) \<noteq> replicate d CHR ''0''"
        "Block_calculateHash sha (this\<lparr>nonce := nonce this + 1\<rparr>) = Inr h"
        "f sha d (this\<lparr>nonce := nonce this + 1, hash := h\<rparr>) = Some y"
  using assms by (auto simp add: Let_def split: if_splits sum.splits)

lemma mineBlock_changes:
  assumes "mineBlock sha d this = Some y"
  shows "snd y = this\<lparr>nonce := nonce (snd y), hash := hash (snd y), difficulty := difficulty (snd y)\<rparr>"
proof -
  let ?P = "\<lambda>(sha :: string \<Rightarrow> string) (d :: nat) this (y :: (error + unit) \<times> Block).
     snd y = this\<lparr>nonce := nonce (snd y), hash := hash (snd y), difficulty := difficulty (snd y)\<rparr>"
  show ?thesis
  proof (rule mineBlock.raw_induct [where P = ?P, OF _ assms])
    fix f sha d this y
    assume IH: "\<And>sha d this y. f sha d this = Some y \<Longrightarrow> ?P sha d this y"
    assume "(if take d (hash this) \<noteq> replicate d CHR ''0''
            then (let this1 = this\<lparr>nonce := nonce this + 1\<rparr> in
                  case Block_calculateHash sha this1 of
                    Inl e \<Rightarrow> Some (Inl e, this1)
                  | Inr h \<Rightarrow> f sha d (this1\<lparr>hash := h\<rparr>))
            else Some (Inr (), this\<lparr>difficulty := d\<rparr>)) = Some y"
    then show "?P sha d this y"
    proof (cases rule: mineBlock_step)
      case finished
      then show ?thesis by simp
    next
      case (threw e)
      then show ?thesis by simp
    next
      case (again h)
      from IH [OF again(3)] show ?thesis by (cases "snd y") simp
    qed
  qed
qed

text \<open>
  Claim C10. Mining changes nothing of a block but its nonce, its hash and its
  difficulty: whenever \<^verbatim>\<open>mineBlock\<close> ends, with a mined block or with an exception, the
  block it leaves is the block it was given with these three fields set; the index, the
  timestamp, the previous hash, the transactions, the metadata and the fields of
  \<^verbatim>\<open>BaseModel\<close> are as before.
\<close>

theorem mineBlock_frame:
  assumes "mineBlock sha d this = Some (outcome, this')"
  shows "this' = this\<lparr>nonce := nonce this', hash := hash this', difficulty := difficulty this'\<rparr>"
  using mineBlock_changes [OF assms] by simp

text \<open>
  A run of two turns: the block with nonce 8 is mined at nonce 10, and the other fields
  of the mined block are those of the block given.
\<close>

lemma zeros4: "replicate 4 c = [c, c, c, c]"
  by (simp add: numeral_eq_Suc)

lemma mining_run: "mineBlock parity_sha 4 mining_block = Some (Inr (), mined_block)"
  by (simp add: mineBlock.simps mined_block_def mining_block_def Block_fields_def mining_data_def
      no_data_def second_clock_def or_str_def or_num_def Block_calculateHash_def Block_hash_data_def
      parity_sha_def quote_def quote_char_def decimal_def decimal_nat.simps digit_char_def zeros4)

theorem mineBlock_frame_witness:
  "mineBlock parity_sha 4 mining_block = Some (Inr (), mined_block)
   \<and> nonce mining_block = 8 \<and> nonce mined_block = 10
   \<and> b_id mined_block = b_id mining_block
   \<and> b_createdAt mined_block = b_createdAt mining_block
   \<and> b_updatedAt mined_block = b_updatedAt mining_block
   \<and> b_version mined_block = b_version mining_block
   \<and> index mined_block = index mining_block
   \<and> timestamp mined_block = timestamp mining_block
   \<and> previousHash mined_block = previousHash mining_block
   \<and> transactions mined_block = transactions mining_block
   \<and> metadata mined_block = metadata mining_block"
proof -
  have start: "nonce mining_block = 8"
    by (simp add: mining_block_def Block_fields_def mining_data_def no_data_def or_num_def)
  have stop: "nonce mined_block = 10"
    by (simp add: mined_block_def)
  note same = mineBlock_frame [OF mining_run]
  note field = arg_cong [OF same]
  from field [of b_id] field [of b_createdAt] field [of b_updatedAt] field [of b_version]
    field [of index] field [of timestamp] field [of previousHash] field [of transactions]
    field [of metadata] mining_run start stop
  show ?thesis by simp
qed

text \<open>
  What a mined block is like: when \<^verbatim>\<open>mineBlock\<close> ends without exception, the hash of the
  block starts with as many zeros as the difficulty asks for, and the hash is the digest
  of the block if it was before.
\<close>

lemma mineBlock_prefix:
  assumes "mineBlock sha d this = Some y"
  shows "fst y = Inr () \<longrightarrow> take d (hash (snd y)) = replicate d CHR ''0'' \<and> difficulty (snd y) = d"
proof -
  let ?P = "\<lambda>(sha :: string \<Rightarrow> string) (d :: nat) (this :: Block) (y :: (error + unit) \<times> Block).
     fst y = Inr () \<longrightarrow> take d (hash (snd y)) = replicate d CHR ''0'' \<and> difficulty (snd y) = d"
  show ?thesis
  proof (rule mineBlock.raw_induct [where P = ?P, OF _ assms])
    fix f sha d this y
    assume IH: "\<And>sha d this y. f sha d this = Some y \<Longrightarrow> ?P sha d this y"
    assume "(if take d (hash this) \<noteq> replicate d CHR ''0''
            then (let this1 = this\<lparr>nonce := nonce this + 1\<rparr> in
                  case Block_calculateHash sha this1 of
                    Inl e \<Rightarrow> Some (Inl e, this1)
                  | Inr h \<Rightarrow> f sha d (this1\<lparr>hash := h\<rparr>))
            else Some (Inr (), this\<lparr>difficulty := d\<rparr>)) = Some y"
    then show "?P sha d this y"
    proof (cases rule: mineBlock_step)
      case finished
      then show ?thesis by simp
    next
      case (threw e)
      then show ?thesis by simp
    next
      case (again h)
      from IH [OF again(3)] show ?thesis .
    qed
  qed
qed

lemma mineBlock_keeps_invariant:
  assumes "mineBlock sha d this = Some y"
  shows "fst y = Inr () \<longrightarrow> Block_calculateHash sha this = Inr (hash this) \<longrightarrow>
         Block_calculateHash sha (snd y) = Inr (hash (snd y))"
proof -
  let ?P = "\<lambda>(sha :: string \<Rightarrow> string) (d :: nat) (this :: Block) (y :: (error + unit) \<times> Block).
     fst y = Inr () \<longrightarrow> Block_calculateHash sha this = Inr (hash this) \<longrightarrow>
         Block_calculateHash sha (snd y) = Inr (hash (snd y))"
  show ?thesis
  proof (rule mineBlock.raw_induct [where P = ?P, OF _ assms])
    fix f sha d this y
    assume IH: "\<And>sha d this y. f sha d this = Some y \<Longrightarrow> ?P sha d this y"
    assume "(if take d (hash this) \<noteq> replicate d CHR ''0''
            then (let this1 = this\<lparr>nonce := nonce this + 1\<rparr> in
                  case Block_calculateHash sha this1 of
                    Inl e \<Rightarrow> Some (Inl e, this1)
                  | Inr h \<Rightarrow> f sha d (this1\<lparr>hash := h\<rparr>))
            else Some (Inr (), this\<lparr>difficulty := d\<rparr>)) = Some y"
    then show "?P sha d this y"
    proof (cases rule: mineBlock_step)
      case finished
      then show ?thesis by (simp add: Block_calculateHash_difficulty)
    next
      case (threw e)
      then show ?thesis by simp
    next
      case (again h)
      have "Block_calculateHash sha (this\<lparr>nonce := nonce this + 1, hash := h\<rparr>)
          = Block_calculateHash sha (this\<lparr>nonce := nonce this + 1\<rparr>)"
        using Block_calculateHash_hash [where this = "this\<lparr>nonce := nonce this + 1\<rparr>"] by simp
      with again(2) have "Block_calculateHash sha (this\<lparr>nonce := nonce this + 1, hash := h\<rparr>)
          = Inr (hash (this\<lparr>nonce := nonce this + 1, hash := h\<rparr>))"
        by simp
      with IH [OF again(3)] show ?thesis by blast
    qed
  qed
qed

text \<open>
  The loop has no bound. For a block without transactions whose hash does not start
  with the zeros, and a digest that gives no such hash at any nonce, the call does not
  end: no count of nonces stops it, and nothing like the \<^verbatim>\<open>maxNonce\<close> of the
  configuration is read.
\<close>

lemma mineBlock_never_returns:
  assumes "mineBlock sha d this = Some y"
  shows "\<not> (transactions this = [] \<and> take d (hash this) \<noteq> replicate d CHR ''0''
      \<and> (\<forall>n. take d (sha (stringify (Block_hash_data (this\<lparr>nonce := n\<rparr>) []))) \<noteq> replicate d CHR ''0''))"
proof -
  let ?stuck = "\<lambda>(sha :: string \<Rightarrow> string) (d :: nat) (this :: Block).
     transactions this = [] \<and> take d (hash this) \<noteq> replicate d CHR ''0''
      \<and> (\<forall>n. take d (sha (stringify (Block_hash_data (this\<lparr>nonce := n\<rparr>) []))) \<noteq> replicate d CHR ''0'')"
  let ?P = "\<lambda>sha d this (y :: (error + unit) \<times> Block). \<not> ?stuck sha d this"
  show ?thesis
  proof (rule mineBlock.raw_induct [where P = ?P, OF _ assms])
    fix f sha d this y
    assume IH: "\<And>sha d this y. f sha d this = Some y \<Longrightarrow> ?P sha d this y"
    assume "(if take d (hash this) \<noteq> replicate d CHR ''0''
            then (let this1 = this\<lparr>nonce := nonce this + 1\<rparr> in
                  case Block_calculateHash sha this1 of
                    Inl e \<Rightarrow> Some (Inl e, this1)
                  | Inr h \<Rightarrow> f sha d (this1\<lparr>hash := h\<rparr>))
            else Some (Inr (), this\<lparr>difficulty := d\<rparr>)) = Some y"
    then show "?P sha d this y"
    proof (cases rule: mineBlock_step)
      case finished
      then show ?thesis by simp
    next
      case (threw e)
      then show ?thesis by (auto simp add: Block_calculateHash_no_transactions)
    next
      case (again h)
      show ?thesis
      proof
        assume a: "?stuck sha d this"
        then have "Block_calculateHash sha (this\<lparr>nonce := nonce this + 1\<rparr>)
            = Inr (sha (stringify (Block_hash_data (this\<lparr>nonce := nonce this + 1\<rparr>) [])))"
          by (simp add: Block_calculateHash_no_transactions)
        with again(2) have h: "h = sha (stringify (Block_hash_data (this\<lparr>nonce := nonce this + 1\<rparr>) []))"
          by simp
        with a have "take d h \<noteq> replicate d CHR ''0''" by blast
        moreover have "Block_hash_data (this\<lparr>nonce := nonce this + 1, hash := h, nonce := n\<rparr>) []
            = Block_hash_data (this\<lparr>nonce := n\<rparr>) []" for n
          by (simp add: Block_hash_data_def)
        ultimately have "?stuck sha d (this\<lparr>nonce := nonce this + 1, hash := h\<rparr>)"
          using a by simp
        with IH [OF again(3)] show False by blast
      qed
    qed
  qed
qed

lemma mineBlock_stuck:
  assumes "transactions this = []"
    and "take d (hash this) \<noteq> replicate d CHR ''0''"
    and "\<forall>n. take d (sha (stringify (Block_hash_data (this\<lparr>nonce := n\<rparr>) []))) \<noteq> replicate d CHR ''0''"
  shows "mineBlock sha d this = None"
proof (cases "mineBlock sha d this")
  case None
  then show ?thesis .
next
  case (Some y)
  from mineBlock_never_returns [OF this] assms show ?thesis by blast
qed

lemma mineBlock_stuck_example: "mineBlock example_sha 4 genesis_block = None"
proof (rule mineBlock_stuck)
  show "transactions genesis_block = []"
    by (simp add: genesis_block_def Block_fields_def no_data_def)
  show "take 4 (hash genesis_block) \<noteq> replicate 4 CHR ''0''"
    by (simp add: genesis_block_def example_sha_def Block_hash_data_def zeros4)
  show "\<forall>n. take 4 (example_sha (stringify (Block_hash_data (genesis_block\<lparr>nonce := n\<rparr>) [])))
          \<noteq> replicate 4 CHR ''0''"
    by (simp add: example_sha_def Block_hash_data_def zeros4)
qed

text \<open>
  Claim C2. The search for a nonce ends within the configured maximum, with a block
  whose hash starts with the zeros or with a failure. In the code it does not: a digest
  has sixty-four hexadecimal characters, so for a difficulty above 64 the first
  \<open>difficulty\<close> characters of a hash are never that many zeros, and \<^verbatim>\<open>mineBlock\<close> on a
  block without transactions runs forever, past every nonce.
\<close>

theorem mineBlock_beyond_digest_length:
  assumes "\<forall>text. length (sha text) = 64" and "length (hash this) \<le> 64" and "64 < d"
    and "transactions this = []"
  shows "mineBlock sha d this = None"
proof (cases "mineBlock sha d this")
  case None
  then show ?thesis .
next
  case (Some y)
  have short: "length s < d \<Longrightarrow> take d s \<noteq> replicate d CHR ''0''" for s :: string
  proof
    assume "length s < d" "take d s = replicate d CHR ''0''"
    then have "length (take d s) = d" by simp
    with \<open>length s < d\<close> show False by simp
  qed
  have "take d (hash this) \<noteq> replicate d CHR ''0''"
    using assms by (intro short) simp
  moreover have "\<forall>n. take d (sha (stringify (Block_hash_data (this\<lparr>nonce := n\<rparr>) []))) \<noteq> replicate d CHR ''0''"
    using assms by (intro allI short) simp
  ultimately show ?thesis using mineBlock_never_returns [OF Some] assms by blast
qed

text \<open>
  The block with nonce 8 again, asked for 65 zeros.
\<close>

theorem mineBlock_beyond_digest_length_witness: "mineBlock parity_sha 65 mining_block = None"
proof (rule mineBlock_beyond_digest_length)
  show "\<forall>text. length (parity_sha text) = 64"
    by (simp add: parity_sha_def)
  show "length (hash mining_block) \<le> 64"
    by (simp add: mining_block_def parity_sha_def)
  show "(64::nat) < 65" by simp
  show "transactions mining_block = []"
    by (simp add: mining_block_def Block_fields_def mining_data_def no_data_def)
qed

section \<open>The hash of a block as an invariant\<close>

lemmas example_block_defs =
  genesis_block_def second_block_def second_data_def Block_fields_def no_data_def
  genesis_clock_def second_clock_def or_str_def or_num_def example_sha_def Block_hash_data_def

lemmas stringify_defs =
  quote_def quote_char_def decimal_def decimal_nat.simps digit_char_def

lemma Block_new_genesis: "Block_new example_sha genesis_clock no_data = Inr genesis_block"
  by (simp add: Block_new_def Block_calculateHash_def example_block_defs)

lemma payment_valid: "fst (Transaction_validate payment) = True"
  by (simp add: Transaction_validate_def payment_def)

lemma mining_block_hashed: "Block_calculateHash parity_sha mining_block = Inr (hash mining_block)"
  by (simp add: Block_calculateHash_def mining_block_def Block_fields_def mining_data_def no_data_def
      Block_hash_data_def cong: sum.case_cong)

text \<open>
  Claim C7 as stated fails: \<^verbatim>\<open>addTransaction\<close> is an operation on a block that changes
  its transactions and does not assign the hash. The block of \<^verbatim>\<open>new Block()\<close> has the
  digest of its fields as hash; after a valid payment is added, the hash is the old one
  and no longer what \<^verbatim>\<open>calculateHash\<close> returns for the block (which, for a block with a
  transaction, is the exception of \<^verbatim>\<open>toJSON\<close>).
\<close>

theorem addTransaction_counterexample:
  "Block_new example_sha genesis_clock no_data = Inr genesis_block
   \<and> Block_calculateHash example_sha genesis_block = Inr (hash genesis_block)
   \<and> fst (addTransaction ''2024-01-01T00:00:20.000Z'' payment genesis_block) = Inr ()
   \<and> transactions (snd (addTransaction ''2024-01-01T00:00:20.000Z'' payment genesis_block)) = [payment]
   \<and> hash (snd (addTransaction ''2024-01-01T00:00:20.000Z'' payment genesis_block)) = hash genesis_block
   \<and> Block_calculateHash example_sha (snd (addTransaction ''2024-01-01T00:00:20.000Z'' payment genesis_block))
       \<noteq> Inr (hash (snd (addTransaction ''2024-01-01T00:00:20.000Z'' payment genesis_block)))"
proof -
  have tx: "transactions genesis_block = []"
    by (simp add: example_block_defs)
  have "Block_calculateHash example_sha genesis_block = Inr (hash genesis_block)"
    by (simp add: Block_calculateHash_def example_block_defs)
  moreover have "fst (addTransaction ''2024-01-01T00:00:20.000Z'' payment genesis_block) = Inr ()"
    by (simp add: addTransaction_def payment_valid)
  moreover have added: "transactions (snd (addTransaction ''2024-01-01T00:00:20.000Z'' payment genesis_block)) = [payment]"
    by (simp add: addTransaction_def payment_valid touch_def tx)
  moreover have "hash (snd (addTransaction ''2024-01-01T00:00:20.000Z'' payment genesis_block)) = hash genesis_block"
    by (simp add: addTransaction_def payment_valid touch_def)
  moreover have "Block_calculateHash example_sha (snd (addTransaction ''2024-01-01T00:00:20.000Z'' payment genesis_block)) = Inl RangeError"
    by (rule Block_calculateHash_transactions) (simp add: added)
  ultimately show ?thesis using Block_new_genesis by simp
qed

text \<open>
  Claim C7, as the code has it. A block built by the constructor from data without a
  hash has the digest of its index, timestamp, previous hash, transactions and nonce as
  hash; a run of \<^verbatim>\<open>mineBlock\<close> that ends without exception keeps that; and
  \<^verbatim>\<open>addTransaction\<close>, when it accepts the transaction, appends it to the transactions and
  leaves the hash, the index, the timestamp, the previous hash and the nonce as they
  were.
\<close>

theorem Block_hash_invariant:
  "((d_hash data = None \<or> d_hash data = Some []) \<and> Block_new sha clk data = Inr this
      \<longrightarrow> Block_calculateHash sha this = Inr (hash this))
   \<and> (Block_calculateHash sha this = Inr (hash this) \<and> mineBlock sha d this = Some (Inr (), this')
      \<longrightarrow> Block_calculateHash sha this' = Inr (hash this'))
   \<and> (addTransaction now tx this = (Inr (), this')
      \<longrightarrow> transactions this' = transactions this @ [tx] \<and> hash this' = hash this
          \<and> index this' = index this \<and> timestamp this' = timestamp this
          \<and> previousHash this' = previousHash this \<and> nonce this' = nonce this)"
proof (intro conjI impI)
  assume a: "(d_hash data = None \<or> d_hash data = Some []) \<and> Block_new sha clk data = Inr this"
  then have "hash (Block_fields clk data) = []"
    by (auto simp add: Block_fields_def or_str_def)
  with a obtain h where "Block_calculateHash sha (Block_fields clk data) = Inr h"
    and "this = (Block_fields clk data)\<lparr>hash := h\<rparr>"
    by (auto simp add: Block_new_def Let_def split: sum.splits)
  then show "Block_calculateHash sha this = Inr (hash this)"
    by (simp add: Block_calculateHash_hash)
next
  assume "Block_calculateHash sha this = Inr (hash this) \<and> mineBlock sha d this = Some (Inr (), this')"
  with mineBlock_keeps_invariant [of sha d this "(Inr (), this')"]
  show "Block_calculateHash sha this' = Inr (hash this')" by simp
next
  assume a: "addTransaction now tx this = (Inr (), this')"
  then have "this' = touch now (this\<lparr>transactions := transactions this @ [tx],
      metadata := (metadata this)\<lparr>transactionCount := length (transactions this) + 1\<rparr>\<rparr>)"
    by (simp add: addTransaction_def split: if_splits)
  then show "transactions this' = transactions this @ [tx]" "hash this' = hash this"
    "index this' = index this" "timestamp this' = timestamp this"
    "previousHash this' = previousHash this" "nonce this' = nonce this"
    by (simp_all add: touch_def)
qed

text \<open>
  The three parts at the block of \<^verbatim>\<open>new Block()\<close>, at the block mined from nonce 8 and
  at the payment added.
\<close>

theorem Block_hash_invariant_witness:
  "Block_calculateHash example_sha genesis_block = Inr (hash genesis_block)
   \<and> Block_calculateHash parity_sha mined_block = Inr (hash mined_block)
   \<and> transactions (snd (addTransaction ''2024-01-01T00:00:20.000Z'' payment genesis_block))
       = transactions genesis_block @ [payment]
   \<and> hash (snd (addTransaction ''2024-01-01T00:00:20.000Z'' payment genesis_block)) = hash genesis_block"
proof -
  have none: "d_hash no_data = None \<or> d_hash no_data = Some []"
    by (simp add: no_data_def)
  have added: "addTransaction ''2024-01-01T00:00:20.000Z'' payment genesis_block
      = (Inr (), snd (addTransaction ''2024-01-01T00:00:20.000Z'' payment genesis_block))"
    by (simp add: addTransaction_def payment_valid)
  from Block_hash_invariant [where sha = example_sha and data = no_data and clk = genesis_clock
      and this = genesis_block and tx = payment and now = "''2024-01-01T00:00:20.000Z''"
      and this' = "snd (addTransaction ''2024-01-01T00:00:20.000Z'' payment genesis_block)"
      and d = 0]
    none Block_new_genesis added
  have one: "Block_calculateHash example_sha genesis_block = Inr (hash genesis_block)"
    and three: "transactions (snd (addTransaction ''2024-01-01T00:00:20.000Z'' payment genesis_block))
       = transactions genesis_block @ [payment]
      \<and> hash (snd (addTransaction ''2024-01-01T00:00:20.000Z'' payment genesis_block)) = hash genesis_block"
    by simp_all
  from Block_hash_invariant [where sha = parity_sha and this = mining_block and this' = mined_block
      and d = 4] mining_block_hashed mining_run
  have two: "Block_calculateHash parity_sha mined_block = Inr (hash mined_block)"
    by simp
  from one two three show ?thesis by simp
qed

section \<open>Chain validation finds a changed block\<close>

text \<open>
  Validation reads of a block only what the hash reads and the hash itself: two chains
  whose blocks agree on these fields validate alike.
\<close>

lemma check_blocks_same:
  "list_all2 same_digest_fields bs bs' \<Longrightarrow>
   (case prior of None \<Rightarrow> prior' = None | Some p \<Rightarrow> \<exists>p'. prior' = Some p' \<and> hash p' = hash p) \<Longrightarrow>
   check_blocks sha i prior' bs' = check_blocks sha i prior bs"
proof (induction bs bs' arbitrary: i prior prior' rule: list_all2_induct)
  case Nil
  then show ?case by simp
next
  case (Cons b bs b' bs')
  from Cons.hyps(1) have calc: "Block_calculateHash sha b' = Block_calculateHash sha b"
    by (simp add: same_digest_fields_def Block_calculateHash_def Block_hash_data_def cong: sum.case_cong)
  from Cons.hyps(1) have f: "hash b' = hash b" "previousHash b' = previousHash b"
    by (simp_all add: same_digest_fields_def)
  have link: "(case prior' of None \<Rightarrow> False | Some p \<Rightarrow> previousHash b' \<noteq> hash p)
      = (case prior of None \<Rightarrow> False | Some p \<Rightarrow> previousHash b \<noteq> hash p)"
    using Cons.prems f by (auto split: option.splits)
  have "check_blocks sha (Suc i) (Some b') bs' = check_blocks sha (Suc i) (Some b) bs"
    by (rule Cons.IH) (simp add: f)
  with calc f link show ?case by (simp split: sum.splits)
qed

lemma isChainValid_same:
  "list_all2 same_digest_fields chain chain' \<Longrightarrow> isChainValid sha chain' = isChainValid sha chain"
  unfolding isChainValid_def by (rule check_blocks_same) simp_all

text \<open>
  In a chain that validates, a block put in place of the one at position \<open>i\<close> whose
  hash is not its digest, or whose previous hash is not the hash of the block before,
  is found at \<open>i\<close>.
\<close>

lemma check_blocks_tampered:
  assumes "check_blocks sha n prior bs = Inr (True, None)"
    and "i < length bs"
    and "Block_calculateHash sha b' = Inr h"
    and "hash b' \<noteq> h \<or>
         (case (if i = 0 then prior else Some (bs ! (i - 1))) of
            None \<Rightarrow> False | Some p \<Rightarrow> previousHash b' \<noteq> hash p)"
  shows "check_blocks sha n prior (bs[i := b']) = Inr (False, Some (n + i))"
  using assms
proof (induction bs arbitrary: n prior i)
  case Nil
  then show ?case by simp
next
  case (Cons b bs)
  from Cons.prems(1) obtain hb where hb: "Block_calculateHash sha b = Inr hb" "hash b = hb"
    and link: "\<not> (case prior of None \<Rightarrow> False | Some p \<Rightarrow> previousHash b \<noteq> hash p)"
    and rest: "check_blocks sha (Suc n) (Some b) bs = Inr (True, None)"
    by (auto split: sum.splits if_splits)
  show ?case
  proof (cases i)
    case 0
    with Cons.prems(3,4) show ?thesis by (auto split: option.splits)
  next
    case (Suc j)
    with Cons.prems(2) have j: "j < length bs" by simp
    from Suc Cons.prems(4) have "hash b' \<noteq> h \<or>
         (case (if j = 0 then Some b else Some (bs ! (j - 1))) of
            None \<Rightarrow> False | Some p \<Rightarrow> previousHash b' \<noteq> hash p)"
      by (cases j) auto
    from Cons.IH [OF rest j Cons.prems(3) this]
    have "check_blocks sha (Suc n) (Some b) (bs[j := b']) = Inr (False, Some (Suc n + j))" .
    with hb link Suc show ?thesis by (simp split: option.splits)
  qed
qed

lemma isChainValid_blocks_hashed:
  "isChainValid sha chain = Inr (True, None) \<Longrightarrow> b \<in> set chain \<Longrightarrow>
   Block_calculateHash sha b = Inr (hash b)"
proof -
  have "check_blocks sha n prior bs = Inr (True, None) \<Longrightarrow> b \<in> set bs \<Longrightarrow>
      Block_calculateHash sha b = Inr (hash b)" for n prior bs
    by (induction bs arbitrary: n prior) (auto split: sum.splits if_splits)
  then show "isChainValid sha chain = Inr (True, None) \<Longrightarrow> b \<in> set chain \<Longrightarrow>
   Block_calculateHash sha b = Inr (hash b)"
    by (simp add: isChainValid_def)
qed




text \<open>
  In particular a change of the stored hash alone, or of the previous hash alone, is
  found at the block changed.
\<close>

lemma isChainValid_hash_changed:
  assumes "isChainValid sha chain = Inr (True, None)" and "0 < i" and "i < length chain"
    and "h' \<noteq> hash (chain ! i)"
  shows "isChainValid sha (chain[i := (chain ! i)\<lparr>hash := h'\<rparr>]) = Inr (False, Some i)"
proof -
  from assms(3) have "chain ! i \<in> set chain" by simp
  from isChainValid_blocks_hashed [OF assms(1) this]
  have "Block_calculateHash sha ((chain ! i)\<lparr>hash := h'\<rparr>) = Inr (hash (chain ! i))"
    by (simp add: Block_calculateHash_hash)
  moreover from assms(4) have "hash ((chain ! i)\<lparr>hash := h'\<rparr>) \<noteq> hash (chain ! i)
      \<or> previousHash ((chain ! i)\<lparr>hash := h'\<rparr>) \<noteq> hash (chain ! (i - 1))"
    by simp
  ultimately show ?thesis
    using check_blocks_tampered [of sha 0 None chain i "(chain ! i)\<lparr>hash := h'\<rparr>" "hash (chain ! i)"] assms
    by (simp add: isChainValid_def)
qed

lemma isChainValid_previousHash_changed:
  assumes "isChainValid sha chain = Inr (True, None)" and "0 < i" and "i < length chain"
    and "p' \<noteq> previousHash (chain ! i)"
  shows "isChainValid sha (chain[i := (chain ! i)\<lparr>previousHash := p'\<rparr>]) = Inr (False, Some i)"
proof -
  let ?b = "chain ! i"
  from assms(3) have "?b \<in> set chain" by simp
  from isChainValid_blocks_hashed [OF assms(1) this]
  have hashed: "Block_calculateHash sha ?b = Inr (hash ?b)" .
  then have "transactions ?b = []"
    using Block_calculateHash_transactions [of ?b sha] by (cases "transactions ?b") auto
  then have calc: "Block_calculateHash sha (?b\<lparr>previousHash := p'\<rparr>)
      = Inr (sha (stringify (Block_hash_data (?b\<lparr>previousHash := p'\<rparr>) [])))"
    by (simp add: Block_calculateHash_no_transactions)
  have linked: "previousHash ?b = hash (chain ! (i - 1))"
  proof -
    have "check_blocks sha n prior bs = Inr (True, None) \<Longrightarrow> 0 < j \<Longrightarrow> j < length bs \<Longrightarrow>
        previousHash (bs ! j) = hash (bs ! (j - 1))" for n prior bs j
    proof (induction bs arbitrary: n prior j)
      case Nil
      then show ?case by simp
    next
      case (Cons b bs)
      from Cons.prems(1) have rest: "check_blocks sha (Suc n) (Some b) bs = Inr (True, None)"
        by (auto split: sum.splits if_splits)
      show ?case
      proof (cases "j = 1")
        case True
        with Cons.prems(3) obtain c cs where "bs = c # cs" by (cases bs) auto
        with rest True show ?thesis by (auto split: sum.splits if_splits)
      next
        case False
        with Cons.prems(2,3) have "0 < j - 1" "j - 1 < length bs" by auto
        from Cons.IH [OF rest this] Cons.prems(2) False show ?thesis
          by (cases j) auto
      qed
    qed
    from this [OF assms(1) [unfolded isChainValid_def] assms(2,3)] show ?thesis .
  qed
  with assms(4) have "hash (?b\<lparr>previousHash := p'\<rparr>) \<noteq> sha (stringify (Block_hash_data (?b\<lparr>previousHash := p'\<rparr>) []))
      \<or> (case (if i = 0 then None else Some (chain ! (i - 1))) of
            None \<Rightarrow> False | Some p \<Rightarrow> previousHash (?b\<lparr>previousHash := p'\<rparr>) \<noteq> hash p)"
    using assms(2) by simp
  from check_blocks_tampered [OF assms(1) [unfolded isChainValid_def] assms(3) calc this]
  show ?thesis by (simp add: isChainValid_def)
qed

text \<open>
  The text that is hashed can be read back: a decimal number ends where the digits end,
  and a quoted string at its closing quote. So two blocks without transactions whose
  texts are equal have the same index, timestamp, previous hash and nonce.
\<close>

lemma decimal_nat_not_Nil: "decimal_nat n \<noteq> []"
  by (subst decimal_nat.simps) simp




















section \<open>Base64 decodes what it encoded\<close>















section \<open>The record history: how \<^verbatim>\<open>save\<close> ends\<close>






text \<open>
  The loop over the index: what it has found when it returns an id, and when it finds
  nothing.
\<close>

lemma find_same_hash_none:
  "\<forall>k\<in>set ids. \<forall>r. record_item ls k = Some (Json r) \<longrightarrow> sha256 r \<noteq> h \<Longrightarrow>
   \<forall>k\<in>set ids. record_item ls k \<noteq> Some Malformed \<Longrightarrow>
   find_same_hash ls h ids = Inr None"
  by (induction ids) (auto simp add: parse_item_def split: option.splits slot.splits)

lemma find_same_hash_some:
  "find_same_hash ls h ids = Inr (Some x) \<Longrightarrow>
   \<exists>k\<in>set ids. \<exists>r. record_item ls k = Some (Json r) \<and> sha256 r = h \<and> rec_id r = x"
  by (induction ids) (auto simp add: parse_item_def split: option.splits slot.splits if_splits)

text \<open>
  The three ways a call of \<^verbatim>\<open>save\<close> with a buffer ends, by what the loop finds.
\<close>

lemma save_found:
  "find_same_hash ls (sha256Hex digest arrayBuffer) (readIndex ls) = Inr (Some rid) \<Longrightarrow>
   save digest env m (Some arrayBuffer) ls = (Inr rid, ls)"
  by (simp add: save_def new_record_def)

lemma save_failed:
  "find_same_hash ls (sha256Hex digest arrayBuffer) (readIndex ls) = Inl e \<Longrightarrow>
   save digest env m (Some arrayBuffer) ls = (Inl e, ls)"
  by (simp add: save_def new_record_def)

lemma save_written:
  "find_same_hash ls (sha256Hex digest arrayBuffer) (readIndex ls) = Inr None \<Longrightarrow>
   save digest env m (Some arrayBuffer) ls =
     (Inr (new_id env),
      \<lparr>index_item = Some (Json (take 500 (new_id env # readIndex ls))),
       record_item = (record_item ls)(new_id env \<mapsto> Json (new_record digest env m arrayBuffer))\<rparr>)"
  by (simp add: save_def new_record_def writeIndex_def Let_def)

text \<open>
  The index after a call is no longer than 500 ids, or than it was.
\<close>

lemma save_index_bound:
  "length (readIndex (snd (save digest env m blob ls))) \<le> max 500 (length (readIndex ls))"
proof (cases blob)
  case None
  then show ?thesis by (simp add: save_def)
next
  case (Some arrayBuffer)
  show ?thesis
  proof (cases "find_same_hash ls (sha256Hex digest arrayBuffer) (readIndex ls)")
    case (Inl e)
    from save_failed [where digest = digest and arrayBuffer = arrayBuffer, OF this] Some
    show ?thesis by simp
  next
    case (Inr found)
    then show ?thesis using Some
      by (cases found) (simp_all add: save_found save_written readIndex_def)
  qed
qed

text \<open>
  \<^verbatim>\<open>deleteRecord\<close> takes the record and its id in the index away together.
\<close>

lemma deleteRecord_removes_both:
  "record_item (deleteRecord rid ls) rid = None \<and> rid \<notin> set (readIndex (deleteRecord rid ls))"
  by (simp add: deleteRecord_def writeIndex_def readIndex_def Let_def)

lemma new_id_first: "new_id first_moment = ''CR_17_k3x9''"
  by (simp add: new_id_def first_moment_def decimal_nat.simps digit_char_def)

lemma new_id_second: "new_id second_moment = ''CR_42_p0aa''"
  by (simp add: new_id_def second_moment_def decimal_nat.simps digit_char_def)


section \<open>Claims about the record history\<close>

text \<open>
  Two calls with buffers of the same digest, the second in the store the first left: the
  second returns the id the first returned and writes nothing. Two \<^verbatim>\<open>ArrayBuffer\<close>s of
  the same bytes have the same digest, and so have two views of one buffer, whatever
  they show of it.
\<close>

lemma save_same_digest_again:
  assumes "save digest env1 m1 (Some first_buffer) ls = (Inr rid, ls1)"
    and "sha256Hex digest second_buffer = sha256Hex digest first_buffer"
  shows "save digest env2 m2 (Some second_buffer) ls1 = (Inr rid, ls1)"
proof (cases "find_same_hash ls (sha256Hex digest first_buffer) (readIndex ls)")
  case (Inl e)
  from save_failed [where digest = digest and arrayBuffer = first_buffer, OF this] assms(1)
  show ?thesis by simp
next
  case (Inr found)
  show ?thesis
  proof (cases found)
    case (Some existing_id)
    with Inr have "find_same_hash ls (sha256Hex digest first_buffer) (readIndex ls) = Inr (Some existing_id)"
      by simp
    then have f: "find_same_hash ls (sha256Hex digest second_buffer) (readIndex ls) = Inr (Some existing_id)"
      by (simp only: assms(2))
    from save_found [where digest = digest and arrayBuffer = first_buffer] f assms
    have "rid = existing_id" "ls1 = ls" by simp_all
    with save_found [where digest = digest and arrayBuffer = second_buffer, OF f] show ?thesis by simp
  next
    case None
    with Inr have f: "find_same_hash ls (sha256Hex digest first_buffer) (readIndex ls) = Inr None"
      by simp
    let ?r = "new_record digest env1 m1 first_buffer"
    from save_written [where digest = digest and arrayBuffer = first_buffer, OF f] assms(1)
    have rid: "rid = new_id env1"
      and ls1: "ls1 = \<lparr>index_item = Some (Json (take 500 (new_id env1 # readIndex ls))),
                        record_item = (record_item ls)(new_id env1 \<mapsto> Json ?r)\<rparr>"
      by auto
    have "readIndex ls1 = new_id env1 # take 499 (readIndex ls)"
      by (simp add: ls1 readIndex_def take_Cons')
    moreover have "parse_item ls1 (new_id env1) = Inr (Some ?r)"
      by (simp add: ls1 parse_item_def)
    moreover have "sha256 ?r = sha256Hex digest second_buffer" "rec_id ?r = new_id env1"
      by (simp_all add: new_record_def assms(2))
    ultimately have "find_same_hash ls1 (sha256Hex digest second_buffer) (readIndex ls1) = Inr (Some rid)"
      by (simp add: rid)
    then show ?thesis
      by (rule save_found [where digest = digest and arrayBuffer = second_buffer])
  qed
qed

text \<open>
  The id a call returns when it finds the digest is the \<^verbatim>\<open>id\<close> property of a record that
  is listed in the index and carries that digest.
\<close>

lemma save_found_record:
  assumes "find_same_hash ls (sha256Hex digest arrayBuffer) (readIndex ls) = Inr (Some existing_id)"
  shows "save digest env m (Some arrayBuffer) ls = (Inr existing_id, ls)
     \<and> (\<exists>k\<in>set (readIndex ls). \<exists>r. record_item ls k = Some (Json r)
           \<and> sha256 r = sha256Hex digest arrayBuffer \<and> rec_id r = existing_id)"
  using save_found [where digest = digest and arrayBuffer = arrayBuffer, OF assms]
    find_same_hash_some [OF assms]
  by simp

text \<open>
  The loop looks at the records the index lists and at no other. A record that is
  stored but no longer listed, as the cut of the index leaves one, is not found: the
  call stores the bytes of its digest again, under a new id.
\<close>

lemma save_unlisted_record:
  assumes "record_item ls k = Some (Json r)" and "sha256 r = sha256Hex digest arrayBuffer"
    and "find_same_hash ls (sha256Hex digest arrayBuffer) (readIndex ls) = Inr None"
    and "new_id env \<noteq> k"
  shows "fst (save digest env m (Some arrayBuffer) ls) = Inr (new_id env)
     \<and> record_item (snd (save digest env m (Some arrayBuffer) ls)) k = Some (Json r)
     \<and> record_item (snd (save digest env m (Some arrayBuffer) ls)) (new_id env)
         = Some (Json (new_record digest env m arrayBuffer))"
  using save_written [where digest = digest and arrayBuffer = arrayBuffer, OF assms(3), of env m] assms(1,4)
  by simp

text \<open>
  Two views of one buffer that show different bytes: the second call takes the bytes for
  stored and returns the id of the first record, which holds the other bytes.
\<close>

lemma save_other_bytes_same_buffer:
  "shown_bytes head_view \<noteq> shown_bytes tail_view
   \<and> save example_digest second_moment loan_meta (Some tail_view)
         (snd (save example_digest first_moment lease_meta (Some head_view) empty_storage))
       = (Inr ''CR_17_k3x9'', snd (save example_digest first_moment lease_meta (Some head_view) empty_storage))"
proof -
  have "find_same_hash empty_storage (sha256Hex example_digest head_view) (readIndex empty_storage) = Inr None"
    by (simp add: empty_storage_def readIndex_def)
  from save_written [where digest = example_digest and arrayBuffer = head_view, OF this]
  have "fst (save example_digest first_moment lease_meta (Some head_view) empty_storage) = Inr ''CR_17_k3x9''"
    by (simp add: new_id_first)
  then have "save example_digest first_moment lease_meta (Some head_view) empty_storage
      = (Inr ''CR_17_k3x9'', snd (save example_digest first_moment lease_meta (Some head_view) empty_storage))"
    by (metis prod.collapse)
  moreover have "sha256Hex example_digest tail_view = sha256Hex example_digest head_view"
    by (simp add: sha256Hex_def head_view_def tail_view_def)
  ultimately have "save example_digest second_moment loan_meta (Some tail_view)
         (snd (save example_digest first_moment lease_meta (Some head_view) empty_storage))
       = (Inr ''CR_17_k3x9'', snd (save example_digest first_moment lease_meta (Some head_view) empty_storage))"
    by (rule save_same_digest_again)
  moreover have "shown_bytes head_view \<noteq> shown_bytes tail_view"
    by (simp add: head_view_def tail_view_def pdf_bytes_def)
  ultimately show ?thesis by simp
qed

text \<open>
  Claim C4. Byte-identical content is stored once: a second save of the same bytes
  returns the id of the existing record and writes nothing. The code takes the digest
  of the whole buffer behind a view, not of the bytes the view shows. The two views
  show the same five bytes, the first over a buffer of these five, the second over a
  buffer of six. Saved one after the other into the empty store, the second gets an id
  of its own, the index lists both ids, and both records are stored, with the same
  payload.
\<close>

theorem save_same_bytes_twice:
  "shown_bytes whole_view = shown_bytes part_view
   \<and> fst (save example_digest first_moment lease_meta (Some whole_view) empty_storage) = Inr ''CR_17_k3x9''
   \<and> fst (save example_digest second_moment loan_meta (Some part_view)
            (snd (save example_digest first_moment lease_meta (Some whole_view) empty_storage)))
       = Inr ''CR_42_p0aa''
   \<and> readIndex (snd (save example_digest second_moment loan_meta (Some part_view)
            (snd (save example_digest first_moment lease_meta (Some whole_view) empty_storage))))
       = [''CR_42_p0aa'', ''CR_17_k3x9'']
   \<and> parse_item (snd (save example_digest second_moment loan_meta (Some part_view)
            (snd (save example_digest first_moment lease_meta (Some whole_view) empty_storage)))) ''CR_17_k3x9''
       = Inr (Some (new_record example_digest first_moment lease_meta whole_view))
   \<and> parse_item (snd (save example_digest second_moment loan_meta (Some part_view)
            (snd (save example_digest first_moment lease_meta (Some whole_view) empty_storage)))) ''CR_42_p0aa''
       = Inr (Some (new_record example_digest second_moment loan_meta part_view))
   \<and> pdfBase64 (new_record example_digest second_moment loan_meta part_view)
       = pdfBase64 (new_record example_digest first_moment lease_meta whole_view)"
proof -
  let ?r1 = "new_record example_digest first_moment lease_meta whole_view"
  let ?r2 = "new_record example_digest second_moment loan_meta part_view"
  let ?ls1 = "\<lparr>index_item = Some (Json [''CR_17_k3x9'']),
         record_item = (\<lambda>rid. None)(''CR_17_k3x9'' \<mapsto> Json ?r1)\<rparr>"
  have same: "shown_bytes whole_view = shown_bytes part_view"
    by (simp add: whole_view_def part_view_def pdf_bytes_def)
  have "find_same_hash empty_storage (sha256Hex example_digest whole_view) (readIndex empty_storage) = Inr None"
    by (simp add: empty_storage_def readIndex_def)
  from save_written [where digest = example_digest and arrayBuffer = whole_view, OF this]
  have first: "save example_digest first_moment lease_meta (Some whole_view) empty_storage
      = (Inr ''CR_17_k3x9'', ?ls1)"
    by (simp add: new_id_first empty_storage_def readIndex_def)
  have other: "sha256 ?r1 \<noteq> sha256Hex example_digest part_view"
    by (simp add: new_record_def sha256Hex_def example_digest_def whole_view_def part_view_def pdf_bytes_def)
  have "find_same_hash ?ls1 (sha256Hex example_digest part_view) (readIndex ?ls1) = Inr None"
    using other by (simp add: readIndex_def parse_item_def)
  from save_written [where digest = example_digest and arrayBuffer = part_view, OF this]
  have second: "save example_digest second_moment loan_meta (Some part_view) ?ls1
      = (Inr ''CR_42_p0aa'',
         \<lparr>index_item = Some (Json [''CR_42_p0aa'', ''CR_17_k3x9'']),
          record_item = ((\<lambda>rid. None)(''CR_17_k3x9'' \<mapsto> Json ?r1))(''CR_42_p0aa'' \<mapsto> Json ?r2)\<rparr>)"
    by (simp add: new_id_second readIndex_def)
  have payload: "pdfBase64 ?r2 = pdfBase64 ?r1"
    using same by (simp add: new_record_def)
  from same first second payload show ?thesis
    by (simp add: readIndex_def parse_item_def)
qed

text \<open>
  Claim C6 as stated fails for the empty buffer, \<^verbatim>\<open>new ArrayBuffer(0)\<close>: it is an object,
  so \<^verbatim>\<open>!arrayBuffer\<close> is false, and the call stores a record and lists it in the index.
\<close>

theorem save_empty_blob_counterexample:
  "fst (save example_digest first_moment lease_meta (Some (ArrayBuffer [])) empty_storage) = Inr ''CR_17_k3x9''
   \<and> readIndex (snd (save example_digest first_moment lease_meta (Some (ArrayBuffer [])) empty_storage)) = [''CR_17_k3x9'']
   \<and> parse_item (snd (save example_digest first_moment lease_meta (Some (ArrayBuffer [])) empty_storage)) ''CR_17_k3x9''
       = Inr (Some (new_record example_digest first_moment lease_meta (ArrayBuffer [])))"
proof -
  have "find_same_hash empty_storage (sha256Hex example_digest (ArrayBuffer [])) (readIndex empty_storage) = Inr None"
    by (simp add: empty_storage_def readIndex_def)
  from save_written [where digest = example_digest and arrayBuffer = "ArrayBuffer []", OF this] show ?thesis
    by (simp add: new_id_first readIndex_def parse_item_def empty_storage_def)
qed

text \<open>
  Claim C6, as the code has it. \<^verbatim>\<open>save\<close> gives up with \<open>NoBlobProvided\<close> when the buffer
  is absent, and then leaves the store as it was; with a buffer, whatever its length, it
  never ends that way.
\<close>

theorem save_NoBlobProvided:
  "save digest env m None ls = (Inl NoBlobProvided, ls)
   \<and> fst (save digest env m (Some arrayBuffer) ls) \<noteq> Inl NoBlobProvided"
proof
  show "save digest env m None ls = (Inl NoBlobProvided, ls)"
    by (simp add: save_def)
next
  have no: "find_same_hash ls h ids \<noteq> Inl NoBlobProvided" for h ids
    by (induction ids) (auto simp add: parse_item_def split: option.splits slot.splits)
  show "fst (save digest env m (Some arrayBuffer) ls) \<noteq> Inl NoBlobProvided"
  proof (cases "find_same_hash ls (sha256Hex digest arrayBuffer) (readIndex ls)")
    case (Inl e)
    with no [of "sha256Hex digest arrayBuffer" "readIndex ls"] have "e \<noteq> NoBlobProvided" by simp
    with save_failed [where digest = digest and arrayBuffer = arrayBuffer, OF Inl]
    show ?thesis by simp
  next
    case (Inr found)
    then show ?thesis
      by (cases found) (simp_all add: save_found save_written)
  qed
qed

text \<open>
  Claim C3. The index holds at most 500 ids, and when a save pushes the oldest id out
  of the index the record of that id is removed from the store as well. The code cuts
  the index and leaves the record: when the index is full and the bytes are new, the
  call puts the new id in front, drops the last id, and the item of the dropped id is
  what it was before the call.
\<close>

theorem save_overflow_keeps_record:
  assumes "length (readIndex ls) = 500"
    and "find_same_hash ls (sha256Hex digest arrayBuffer) (readIndex ls) = Inr None"
    and "new_id env \<noteq> last (readIndex ls)"
  shows "fst (save digest env m (Some arrayBuffer) ls) = Inr (new_id env)
     \<and> readIndex (snd (save digest env m (Some arrayBuffer) ls)) = new_id env # butlast (readIndex ls)
     \<and> record_item (snd (save digest env m (Some arrayBuffer) ls)) (last (readIndex ls))
         = record_item ls (last (readIndex ls))"
proof -
  have "take 499 (readIndex ls) = butlast (readIndex ls)"
    using assms(1) by (simp add: butlast_conv_take)
  with save_written [where digest = digest and arrayBuffer = arrayBuffer, OF assms(2), of env m]
    assms(3)
  show ?thesis by (auto simp add: readIndex_def take_Cons')
qed

lemma decimal_nat_zero: "decimal_nat 0 = ''0''"
  by (subst decimal_nat.simps) (simp add: digit_char_def)

lemma decimal_nat_positive: "0 < n \<Longrightarrow> decimal_nat n \<noteq> ''0''"
proof (cases "n < 10")
  case True
  assume "0 < n"
  with True have "n \<in> {1, 2, 3, 4, 5, 6, 7, 8, 9}" by auto
  then show ?thesis
    by (subst decimal_nat.simps) (auto simp add: digit_char_def)
next
  case False
  then have "decimal_nat n = decimal_nat (n div 10) @ [digit_char (n mod 10)]"
    by (subst decimal_nat.simps) simp
  moreover have "length (decimal_nat (n div 10)) \<noteq> 0"
    using decimal_nat_not_Nil by simp
  ultimately have "length (decimal_nat n) \<noteq> 1" by simp
  then show ?thesis by auto
qed

lemma old_id_zero: "old_id 0 = ''CR_0_0000''"
  by (simp add: old_id_def decimal_nat_zero)

lemma old_id_positive: "0 < n \<Longrightarrow> old_id n \<noteq> ''CR_0_0000''"
  using decimal_nat_positive [of n]
  by (auto simp add: old_id_def append_eq_Cons_conv Cons_eq_append_conv)

lemma newest_first_last: "0 < n \<Longrightarrow> last (map old_id (rev [0..<n])) = ''CR_0_0000''"
proof -
  assume n: "0 < n"
  then have "rev [0..<n] \<noteq> []" by simp
  then have "last (map old_id (rev [0..<n])) = old_id (last (rev [0..<n]))"
    by (rule last_map)
  also have "last (rev [0..<n]) = hd [0..<n]"
    by (rule last_rev)
  also from n have "hd [0..<n] = 0" by (rule hd_upt)
  finally show ?thesis by (simp only: old_id_zero)
qed

lemma newest_first_butlast:
  "0 < n \<Longrightarrow> butlast (map old_id (rev [0..<n])) = map old_id (rev [Suc 0..<n])"
proof -
  assume "0 < n"
  then have "[0..<n] = 0 # [Suc 0..<n]" by (rule upt_conv_Cons)
  then have "rev [0..<n] = rev [Suc 0..<n] @ [0]" by simp
  then show ?thesis by (simp add: map_butlast [symmetric])
qed

lemma newest_first_others: "''CR_0_0000'' \<notin> set (map old_id (rev [Suc 0..<n]))"
proof
  assume "''CR_0_0000'' \<in> set (map old_id (rev [Suc 0..<n]))"
  then obtain k where "k \<in> set [Suc 0..<n]" and k: "old_id k = ''CR_0_0000''"
    by (auto simp del: upt_Suc)
  then have "0 < k" by simp
  with old_id_positive k show False by blast
qed

lemma full_storage_index: "readIndex full_storage = map old_id (rev [0..<500])"
  by (simp only: full_storage_def readIndex_def localStorage.simps option.case slot.case)

lemma full_storage_record:
  "n < 500 \<Longrightarrow> record_item full_storage (old_id n) = Some (Json (old_record (old_id n)))"
proof -
  assume "n < 500"
  then have "n \<in> set [0..<500]" by (simp only: set_upt atLeastLessThan_iff) simp
  then have "old_id n \<in> set (map old_id [0..<500])" by (simp only: set_map image_eqI)
  then show ?thesis by (simp only: full_storage_def localStorage.simps if_True)
qed

lemma full_storage_records:
  "record_item full_storage k = Some (Json r) \<Longrightarrow> r = old_record k"
  by (simp only: full_storage_def localStorage.simps split: if_splits) simp_all

lemma full_storage_no_malformed: "record_item full_storage k \<noteq> Some Malformed"
  by (simp only: full_storage_def localStorage.simps split: if_splits) simp_all

text \<open>
  The full store: after the call the index has 500 ids again, \<^verbatim>\<open>CR_0_0000\<close> is not among
  them, and its record is still stored.
\<close>

theorem save_overflow_keeps_record_witness:
  "fst (save example_digest first_moment lease_meta (Some (ArrayBuffer pdf_bytes)) full_storage) = Inr ''CR_17_k3x9''
   \<and> length (readIndex (snd (save example_digest first_moment lease_meta (Some (ArrayBuffer pdf_bytes)) full_storage))) = 500
   \<and> ''CR_0_0000'' \<notin> set (readIndex (snd (save example_digest first_moment lease_meta (Some (ArrayBuffer pdf_bytes)) full_storage)))
   \<and> record_item (snd (save example_digest first_moment lease_meta (Some (ArrayBuffer pdf_bytes)) full_storage)) ''CR_0_0000''
       = Some (Json (old_record ''CR_0_0000''))"
proof -
  have pos: "(0::nat) < 500" by simp
  have len: "length (readIndex full_storage) = 500"
    by (simp only: full_storage_index length_map length_rev length_upt diff_zero)
  have last: "last (readIndex full_storage) = ''CR_0_0000''"
    by (simp only: full_storage_index newest_first_last [OF pos])
  have "''sha of '' @ rid \<noteq> sha256Hex example_digest (ArrayBuffer pdf_bytes)" for rid
    by (simp add: sha256Hex_def example_digest_def pdf_bytes_def)
  then have "sha256 (old_record rid) \<noteq> sha256Hex example_digest (ArrayBuffer pdf_bytes)" for rid
    by (simp add: old_record_def)
  then have none: "find_same_hash full_storage (sha256Hex example_digest (ArrayBuffer pdf_bytes)) (readIndex full_storage) = Inr None"
    using full_storage_records full_storage_no_malformed
    by (intro find_same_hash_none) blast+
  have fresh: "new_id first_moment \<noteq> last (readIndex full_storage)"
    by (simp add: last new_id_first)
  note kept = save_overflow_keeps_record [where digest = example_digest and arrayBuffer = "ArrayBuffer pdf_bytes",
      OF len none fresh, of lease_meta]
  define older where "older = map old_id (rev [Suc 0..<500])"
  have "butlast (readIndex full_storage) = older"
    by (simp only: full_storage_index older_def newest_first_butlast [OF pos])
  moreover have "''CR_0_0000'' \<notin> set older"
    unfolding older_def by (rule newest_first_others)
  moreover have "record_item full_storage ''CR_0_0000'' = Some (Json (old_record ''CR_0_0000''))"
    using full_storage_record [OF pos] by (simp only: old_id_zero)
  moreover have "length older = 499"
    by (simp add: older_def del: upt_Suc)
  ultimately show ?thesis
    using kept by (simp add: last new_id_first)
qed




text \<open>
  \<^verbatim>\<open>loadAll\<close> on a store none of whose listed items is malformed: the records of the ids
  that have one, in the order of the index.
\<close>

lemma load_each_well_formed:
  "\<forall>k\<in>set ids. record_item ls k \<noteq> Some Malformed \<Longrightarrow>
   load_each ls ids =
     Inr (List.map_filter (\<lambda>k. case record_item ls k of Some (Json r) \<Rightarrow> Some r | _ \<Rightarrow> None) ids)"
  by (induction ids) (auto simp add: parse_item_def List.map_filter_simps split: option.splits slot.splits)

lemma loadAll_well_formed:
  "\<forall>k\<in>set (readIndex ls). record_item ls k \<noteq> Some Malformed \<Longrightarrow>
   loadAll ls =
     Inr (List.map_filter (\<lambda>k. case record_item ls k of Some (Json r) \<Rightarrow> Some r | _ \<Rightarrow> None) (readIndex ls))"
  unfolding loadAll_def by (rule load_each_well_formed)

lemma load_each_malformed:
  "k \<in> set ids \<Longrightarrow> record_item ls k = Some Malformed \<Longrightarrow> load_each ls ids = Inl SyntaxError"
  by (induction ids) (auto simp add: parse_item_def split: option.splits slot.splits sum.splits)

text \<open>
  Claim C9. \<^verbatim>\<open>loadAll\<close> returns the records in the order of the index, skips the ids
  without record and never fails as a whole. It fails on the damaged store: the first
  id has its record, the item of the second is not JSON, and \<^verbatim>\<open>JSON.parse\<close>, which
  \<^verbatim>\<open>readIndex\<close> guards with \<^verbatim>\<open>try\<close> and \<^verbatim>\<open>loadAll\<close> does not, throws.
\<close>

theorem loadAll_malformed_record:
  "readIndex damaged_storage = [''CR_42_p0aa'', ''CR_17_k3x9'']
   \<and> parse_item damaged_storage ''CR_42_p0aa''
       = Inr (Some (new_record example_digest second_moment loan_meta (ArrayBuffer pdf_bytes)))
   \<and> loadAll damaged_storage = Inl SyntaxError"
  by (simp add: loadAll_def readIndex_def damaged_storage_def parse_item_def)

end
